theory Spec2Isabelle
  imports Main
begin

section \<open>Python values used by the controller\<close>

text \<open>
  The module under study is \<^verbatim>\<open>backend/controller/github.py\<close>: the webhook handler
  \<^verbatim>\<open>github_webhook_issues\<close> and the persistence routine \<^verbatim>\<open>save_issue_to_database\<close>.
  Every exception the module can see is an instance of Python's \<^verbatim>\<open>Exception\<close>; it is
  modelled by its class name and the text \<^verbatim>\<open>str(e)\<close>.
\<close>

datatype exn = Exn string string

fun str :: "exn \<Rightarrow> string" where
  "str (Exn cls msg) = msg"

text \<open>A decoded JSON object (a label or an assignee descriptor) is a dict with string keys.\<close>

type_synonym pydict = "(string \<times> string) list"

definition dict_get :: "pydict \<Rightarrow> string \<Rightarrow> string option" where
  \<comment> \<open>\<^verbatim>\<open>d.get(k)\<close>: None when the key is absent.\<close>
  "dict_get d k = map_of d k"

definition dict_item :: "pydict \<Rightarrow> string \<Rightarrow> exn + string" where
  \<comment> \<open>\<^verbatim>\<open>d[k]\<close>: raises KeyError when the key is absent.\<close>
  "dict_item d k =
     (case map_of d k of
        None \<Rightarrow> Inl (Exn ''KeyError'' ([CHR 0x27] @ k @ [CHR 0x27]))
      | Some v \<Rightarrow> Inr v)"

fun subscript_all :: "string \<Rightarrow> pydict list \<Rightarrow> exn + string list" where
  \<comment> \<open>The comprehension \<^verbatim>\<open>[d[k] for d in ds]\<close>: the first missing key raises.\<close>
  "subscript_all k [] = Inr []"
| "subscript_all k (d # ds) =
     (case dict_item d k of
        Inl e \<Rightarrow> Inl e
      | Inr v \<Rightarrow> (case subscript_all k ds of Inl e \<Rightarrow> Inl e | Inr vs \<Rightarrow> Inr (v # vs)))"

fun truthy :: "string option \<Rightarrow> bool" where
  \<comment> \<open>Python truth value of an optional text attribute: None and the empty string are falsy.\<close>
  "truthy None = False"
| "truthy (Some s) = (s \<noteq> [])"

section \<open>The Issue entity\<close>

text \<open>
  The class \<^verbatim>\<open>Issue\<close> lives in \<^verbatim>\<open>backend/model/issue.py\<close>, which is not part of the
  sources at hand. The record below holds the attributes the controller reads; the
  label and assignee attributes hold serialized text, decoded by
  \<^verbatim>\<open>get_labels_list\<close> and \<^verbatim>\<open>get_assignees_list\<close>.
\<close>

record issue =
  github_issue_id :: int
  github_issue_number :: int
  title :: string
  repository_name :: string
  author_login :: string
  state :: string
  labels :: "string option"
  assignees :: "string option"

datatype field =
    F_github_issue_id | F_github_issue_number | F_title | F_repository_name
  | F_author_login | F_state | F_labels | F_assignees

datatype pyval = PInt int | PStr string | POptStr "string option"

definition all_fields :: "field list" where
  "all_fields =
     [F_github_issue_id, F_github_issue_number, F_title, F_repository_name,
      F_author_login, F_state, F_labels, F_assignees]"

fun getattr :: "issue \<Rightarrow> field \<Rightarrow> pyval" where
  "getattr i F_github_issue_id = PInt (github_issue_id i)"
| "getattr i F_github_issue_number = PInt (github_issue_number i)"
| "getattr i F_title = PStr (title i)"
| "getattr i F_repository_name = PStr (repository_name i)"
| "getattr i F_author_login = PStr (author_login i)"
| "getattr i F_state = PStr (state i)"
| "getattr i F_labels = POptStr (labels i)"
| "getattr i F_assignees = POptStr (assignees i)"

fun setattr :: "field \<Rightarrow> pyval \<Rightarrow> issue \<Rightarrow> issue" where
  \<comment> \<open>Assigning one attribute; a value of the wrong type for the column is not stored.\<close>
  "setattr F_github_issue_id v i = (case v of PInt n \<Rightarrow> i\<lparr>github_issue_id := n\<rparr> | _ \<Rightarrow> i)"
| "setattr F_github_issue_number v i =
     (case v of PInt n \<Rightarrow> i\<lparr>github_issue_number := n\<rparr> | _ \<Rightarrow> i)"
| "setattr F_title v i = (case v of PStr s \<Rightarrow> i\<lparr>title := s\<rparr> | _ \<Rightarrow> i)"
| "setattr F_repository_name v i = (case v of PStr s \<Rightarrow> i\<lparr>repository_name := s\<rparr> | _ \<Rightarrow> i)"
| "setattr F_author_login v i = (case v of PStr s \<Rightarrow> i\<lparr>author_login := s\<rparr> | _ \<Rightarrow> i)"
| "setattr F_state v i = (case v of PStr s \<Rightarrow> i\<lparr>state := s\<rparr> | _ \<Rightarrow> i)"
| "setattr F_labels v i = (case v of POptStr s \<Rightarrow> i\<lparr>labels := s\<rparr> | _ \<Rightarrow> i)"
| "setattr F_assignees v i = (case v of POptStr s \<Rightarrow> i\<lparr>assignees := s\<rparr> | _ \<Rightarrow> i)"

section \<open>Collaborators: the table, the search and the notifier\<close>

type_synonym similar = int

type_synonym fieldmap = "(field \<times> pyval) list"

datatype call =
    Open_table string
  | Table_get int
  | Table_insert issue
  | Table_update fieldmap fieldmap
  | Search_similar_issues issue nat
  | Log_similar_issues "similar list" issue
  | Should_send_comment string issue "similar list"
  | Send_issue_comment issue "similar list"

fun is_table_call :: "call \<Rightarrow> bool" where
  "is_table_call (Open_table n) = True"
| "is_table_call (Table_get k) = True"
| "is_table_call (Table_insert i) = True"
| "is_table_call (Table_update ch flt) = True"
| "is_table_call _ = False"

fun is_search_call :: "call \<Rightarrow> bool" where
  "is_search_call (Search_similar_issues i n) = True"
| "is_search_call (Log_similar_issues s i) = True"
| "is_search_call _ = False"

fun is_comment_call :: "call \<Rightarrow> bool" where
  "is_comment_call (Should_send_comment a i s) = True"
| "is_comment_call (Send_issue_comment i s) = True"
| "is_comment_call _ = False"

fun is_write_call :: "call \<Rightarrow> bool" where
  "is_write_call (Table_insert i) = True"
| "is_write_call (Table_update ch flt) = True"
| "is_write_call _ = False"

text \<open>
  The world the handler runs in: the rows of the issue table, and the trace of every
  collaborator call made so far, each with the exception it raised (None when it
  returned).
\<close>

record world =
  rows :: "issue list"
  trace :: "(call \<times> exn option) list"

type_synonym payload = pydict

text \<open>
  Everything the module imports and the sources do not contain is a parameter: the
  configuration constants, the decoders behind \<^verbatim>\<open>get_labels_list\<close> and
  \<^verbatim>\<open>get_assignees_list\<close>, the payload mapper \<^verbatim>\<open>Issue.from_webhook_payload\<close>, whether a
  collaborator call raises in a given world (\<open>raises\<close>), and what the search and the
  comment decision return when they do not raise.
\<close>

record env =
  REPLY_LABEL :: string
  ISSUE_TABLE_NAME :: string
  PROTECTED_FIELDS :: "field list"
  json_labels :: "string \<Rightarrow> pydict list"
  json_assignees :: "string \<Rightarrow> pydict list"
  from_webhook_payload :: "payload \<Rightarrow> exn + issue"
  raises :: "world \<Rightarrow> call \<Rightarrow> exn option"
  search_result :: "world \<Rightarrow> issue \<Rightarrow> nat \<Rightarrow> similar list"
  send_decision :: "world \<Rightarrow> string \<Rightarrow> issue \<Rightarrow> similar list \<Rightarrow> bool"

text \<open>
  Modelled from the spec: the methods \<^verbatim>\<open>get_labels_list\<close> and \<^verbatim>\<open>get_assignees_list\<close> of
  the absent class \<^verbatim>\<open>Issue\<close>. Section 4.1: they decode the serialized attribute into a
  list of descriptors and never raise; the decoders themselves are the parameters
  \<open>json_labels\<close> and \<open>json_assignees\<close>.
\<close>

definition get_labels_list :: "env \<Rightarrow> issue \<Rightarrow> pydict list" where
  "get_labels_list E i = (case labels i of None \<Rightarrow> [] | Some s \<Rightarrow> json_labels E s)"

definition get_assignees_list :: "env \<Rightarrow> issue \<Rightarrow> pydict list" where
  "get_assignees_list E i = (case assignees i of None \<Rightarrow> [] | Some s \<Rightarrow> json_assignees E s)"

subsection \<open>The diff engine\<close>

text \<open>
  Modelled from the spec: \<^verbatim>\<open>diff_and_get_changed_fields\<close> of
  \<^verbatim>\<open>backend/model/init_database.py\<close>, which the sources do not contain. Section 4.2:
  for every field except the protected ones, compare previous and incoming by value;
  the fields that differ are in the result with the incoming value.
\<close>

definition diff_and_get_changed_fields :: "env \<Rightarrow> issue \<Rightarrow> issue \<Rightarrow> fieldmap" where
  "diff_and_get_changed_fields E existing new =
     map (\<lambda>f. (f, getattr new f))
       (filter (\<lambda>f. f \<notin> set (PROTECTED_FIELDS E) \<and> getattr existing f \<noteq> getattr new f)
          all_fields)"

subsection \<open>The keyed table\<close>

text \<open>
  Modelled from the spec: the table collaborator of section 6, an abstract keyed table
  with \<^verbatim>\<open>get(id)\<close>, \<^verbatim>\<open>insert(issue)\<close> and \<^verbatim>\<open>update(fieldMap, keyPredicate)\<close>. A lookup
  returns the first row with the key; an insert adds a row; an update patches, field by
  field, every row the predicate selects. A table that rejects a call (a duplicate key,
  an I/O error) does so through \<open>raises\<close>, and a rejected call changes no row.
\<close>

definition table_get :: "issue list \<Rightarrow> int \<Rightarrow> issue option" where
  "table_get rs k = find (\<lambda>r. github_issue_id r = k) rs"

definition apply_fields :: "fieldmap \<Rightarrow> issue \<Rightarrow> issue" where
  "apply_fields changed r = fold (\<lambda>(f, v). setattr f v) changed r"

definition selected :: "fieldmap \<Rightarrow> issue \<Rightarrow> bool" where
  "selected flt r = list_all (\<lambda>(f, v). getattr r f = v) flt"

fun effect :: "call \<Rightarrow> issue list \<Rightarrow> issue list" where
  "effect (Table_insert i) rs = rs @ [i]"
| "effect (Table_update changed flt) rs =
     map (\<lambda>r. if selected flt r then apply_fields changed r else r) rs"
| "effect _ rs = rs"

definition invoke :: "env \<Rightarrow> call \<Rightarrow> world \<Rightarrow> exn option \<times> world" where
  \<comment> \<open>One collaborator call: it is recorded, and either raises or takes effect.\<close>
  "invoke E c w =
     (case raises E w c of
        Some e \<Rightarrow> (Some e, w\<lparr>trace := trace w @ [(c, Some e)]\<rparr>)
      | None \<Rightarrow> (None, w\<lparr>rows := effect c (rows w), trace := trace w @ [(c, None)]\<rparr>))"

section \<open>save_issue_to_database\<close>

definition any_reply_label :: "env \<Rightarrow> pydict list \<Rightarrow> bool" where
  \<comment> \<open>\<^verbatim>\<open>any(label.get('name') == config.REPLY_LABEL for label in ls)\<close>\<close>
  "any_reply_label E ls = list_ex (\<lambda>label. dict_get label ''name'' = Some (REPLY_LABEL E)) ls"

definition save_issue_to_database ::
  "env \<Rightarrow> issue \<Rightarrow> string \<Rightarrow> world \<Rightarrow> (exn + bool) \<times> world" where
  "save_issue_to_database E issue action w0 =
     (case invoke E (Open_table (ISSUE_TABLE_NAME E)) w0 of
        (Some e, w1) \<Rightarrow> (Inl e, w1)
      | (None, w1) \<Rightarrow>
          if action = ''opened'' then
            (case invoke E (Table_insert issue) w1 of
               (Some e, w2) \<Rightarrow> (Inl e, w2)
             | (None, w2) \<Rightarrow>
                 let labels_list = (if truthy (labels issue) then get_labels_list E issue else [])
                 in (Inr (any_reply_label E labels_list), w2))
          else
            (case invoke E (Table_get (github_issue_id issue)) w1 of
               (Some e, w2) \<Rightarrow> (Inl e, w2)
             | (None, w2) \<Rightarrow>
                 let existing_issue = table_get (rows w1) (github_issue_id issue);
                     current_has_reply =
                       (if truthy (labels issue) then any_reply_label E (get_labels_list E issue)
                        else False);
                     db_has_reply =
                       (case existing_issue of
                          None \<Rightarrow> False
                        | Some ex \<Rightarrow>
                            if truthy (labels ex) then any_reply_label E (get_labels_list E ex)
                            else False);
                     should_reply = (current_has_reply \<and> \<not> db_has_reply)
                 in
                   (case existing_issue of
                      Some ex \<Rightarrow>
                        let changed_fields = diff_and_get_changed_fields E ex issue in
                          if changed_fields \<noteq> [] then
                            (case invoke E
                                    (Table_update changed_fields
                                       [(F_github_issue_id, PInt (github_issue_id issue))]) w2 of
                               (Some e, w3) \<Rightarrow> (Inl e, w3)
                             | (None, w3) \<Rightarrow> (Inr should_reply, w3))
                          else (Inr should_reply, w2)
                    | None \<Rightarrow>
                        (case invoke E (Table_insert issue) w2 of
                           (Some e, w3) \<Rightarrow> (Inl e, w3)
                         | (None, w3) \<Rightarrow> (Inr should_reply, w3)))))"

section \<open>The webhook handler\<close>

record outcome =
  status :: string
  message :: string

datatype http_status = OK | INTERNAL_SERVER_ERROR

type_synonym response = "outcome \<times> http_status"

definition error_response :: "exn \<Rightarrow> response" where
  "error_response e = (\<lparr>status = ''error'', message = str e\<rparr>, INTERNAL_SERVER_ERROR)"

definition skipped_response :: response where
  "skipped_response =
     (\<lparr>status = ''success'', message = ''Issue skipped (not marked for reply)''\<rparr>, OK)"

definition success_response :: response where
  "success_response = (\<lparr>status = ''success'', message = ''Issues webhook processed''\<rparr>, OK)"

definition unbound_similar_issues :: exn where
  \<comment> \<open>Reading the local \<^verbatim>\<open>similar_issues\<close> before any assignment to it.\<close>
  "unbound_similar_issues =
     Exn ''UnboundLocalError''
       ''cannot access local variable 'similar_issues' where it is not associated with a value''"

definition label_names :: "env \<Rightarrow> issue \<Rightarrow> exn + string list" where
  \<comment> \<open>Lines 37 to 41: the names logged before the issue is saved.\<close>
  "label_names E issue =
     (if truthy (labels issue) then subscript_all ''name'' (get_labels_list E issue) else Inr [])"

definition assignee_logins :: "env \<Rightarrow> issue \<Rightarrow> exn + string list" where
  \<comment> \<open>Lines 43 to 45.\<close>
  "assignee_logins E issue =
     (if truthy (assignees issue) then subscript_all ''login'' (get_assignees_list E issue)
      else Inr [])"

definition search_step :: "env \<Rightarrow> issue \<Rightarrow> world \<Rightarrow> similar list option \<times> world" where
  \<comment> \<open>The inner try of lines 56 to 62. The result is the binding of \<^verbatim>\<open>similar_issues\<close>
      afterwards: None when the search raised before the assignment.\<close>
  "search_step E issue w1 =
     (case invoke E (Search_similar_issues issue 10) w1 of
        (Some e, w2) \<Rightarrow> (None, w2)
      | (None, w2) \<Rightarrow>
          let similar_issues = search_result E w1 issue 10 in
            (case invoke E (Log_similar_issues similar_issues issue) w2 of
               (r, w3) \<Rightarrow> (Some similar_issues, w3)))"

definition comment_step ::
  "env \<Rightarrow> string \<Rightarrow> issue \<Rightarrow> similar list option \<Rightarrow> world \<Rightarrow> response \<times> world" where
  \<comment> \<open>Lines 66 to 74, inside the outer try.\<close>
  "comment_step E action issue similar_issues w2 =
     (case similar_issues of
        None \<Rightarrow> (error_response unbound_similar_issues, w2)
      | Some sim \<Rightarrow>
          (case invoke E (Should_send_comment action issue sim) w2 of
             (Some e, w3) \<Rightarrow> (error_response e, w3)
           | (None, w3) \<Rightarrow>
               if send_decision E w2 action issue sim then
                 (case invoke E (Send_issue_comment issue sim) w3 of
                    (Some e, w4) \<Rightarrow> (error_response e, w4)
                  | (None, w4) \<Rightarrow> (success_response, w4))
               else (success_response, w3)))"

definition event_action :: "payload \<Rightarrow> string" where
  \<comment> \<open>\<^verbatim>\<open>data.get('action', 'unknown')\<close>\<close>
  "event_action data = (case dict_get data ''action'' of Some a \<Rightarrow> a | None \<Rightarrow> ''unknown'')"

definition github_webhook_issues :: "env \<Rightarrow> payload \<Rightarrow> world \<Rightarrow> response \<times> world" where
  "github_webhook_issues E data w0 =
     (case from_webhook_payload E data of
        Inl e \<Rightarrow> (error_response e, w0)
      | Inr issue \<Rightarrow>
          let action = event_action data in
            (case label_names E issue of
               Inl e \<Rightarrow> (error_response e, w0)
             | Inr names \<Rightarrow>
                 (case assignee_logins E issue of
                    Inl e \<Rightarrow> (error_response e, w0)
                  | Inr logins \<Rightarrow>
                      (case save_issue_to_database E issue action w0 of
                         (Inl e, w1) \<Rightarrow> (error_response e, w1)
                       | (Inr should_reply, w1) \<Rightarrow>
                           if \<not> should_reply then (skipped_response, w1)
                           else
                             (case search_step E issue w1 of
                                (similar_issues, w2) \<Rightarrow>
                                  comment_step E action issue similar_issues w2)))))"

section \<open>Vocabulary of the properties\<close>

definition labels_list :: "env \<Rightarrow> issue \<Rightarrow> pydict list" where
  \<comment> \<open>Line 101: \<^verbatim>\<open>issue.get_labels_list() if issue.labels else []\<close>.\<close>
  "labels_list E i = (if truthy (labels i) then get_labels_list E i else [])"

definition has_label :: "env \<Rightarrow> string \<Rightarrow> issue \<Rightarrow> bool" where
  \<comment> \<open>The name \<open>n\<close> is in the label set of the issue.\<close>
  "has_label E n i = (\<exists>l \<in> set (labels_list E i). dict_get l ''name'' = Some n)"

definition new_calls :: "world \<Rightarrow> world \<Rightarrow> (call \<times> exn option) list" where
  \<comment> \<open>The collaborator calls made between two worlds of one run.\<close>
  "new_calls w w' = drop (length (trace w)) (trace w')"

definition fault_free :: "env \<Rightarrow> bool" where
  \<comment> \<open>No collaborator call ever raises.\<close>
  "fault_free E = (\<forall>w c. raises E w c = None)"

definition table_only :: "(call \<times> exn option) list \<Rightarrow> bool" where
  \<comment> \<open>Every call of the trace segment is a table call.\<close>
  "table_only xs = list_all (\<lambda>(c, x). is_table_call c) xs"

definition enrichment_calls :: "(call \<times> exn option) list \<Rightarrow> (call \<times> exn option) list" where
  \<comment> \<open>The search and comment calls of a trace segment.\<close>
  "enrichment_calls xs = filter (\<lambda>(c, x). is_search_call c \<or> is_comment_call c) xs"

definition key_of :: "issue \<Rightarrow> fieldmap" where
  \<comment> \<open>The filter of line 130: \<^verbatim>\<open>{"github_issue_id": issue.github_issue_id}\<close>.\<close>
  "key_of issue = [(F_github_issue_id, PInt (github_issue_id issue))]"

definition update_call :: "env \<Rightarrow> issue \<Rightarrow> issue \<Rightarrow> call" where
  \<comment> \<open>The update of lines 128 to 131 for a stored record and an incoming issue.\<close>
  "update_call E ex issue = Table_update (diff_and_get_changed_fields E ex issue) (key_of issue)"

subsection \<open>A sample configuration\<close>

definition demo_issue :: issue where
  "demo_issue =
     \<lparr>github_issue_id = 42, github_issue_number = 7, title = ''Crash on start'',
      repository_name = ''tiara'', author_login = ''alice'', state = ''open'',
      labels = None, assignees = None\<rparr>"

definition demo_mapper :: "payload \<Rightarrow> exn + issue" where
  "demo_mapper d =
     (case dict_item d ''id'' of
        Inl e \<Rightarrow> Inl e
      | Inr v \<Rightarrow> Inr (demo_issue\<lparr>labels := dict_get d ''labels''\<rparr>))"

definition demo_env :: env where
  "demo_env =
     \<lparr>REPLY_LABEL = ''needs-reply'', ISSUE_TABLE_NAME = ''issues'',
      PROTECTED_FIELDS = [F_github_issue_id],
      json_labels = (\<lambda>s. [[(''name'', s)]]),
      json_assignees = (\<lambda>s. [[(''login'', s)]]),
      from_webhook_payload = demo_mapper,
      raises = (\<lambda>w c. None),
      search_result = (\<lambda>w i n. []),
      send_decision = (\<lambda>w a i s. True)\<rparr>"

definition demo_world :: world where
  "demo_world = \<lparr>rows = [demo_issue], trace = []\<rparr>"

definition empty_world :: world where
  "empty_world = \<lparr>rows = [], trace = []\<rparr>"

definition labeled_issue :: issue where
  "labeled_issue = demo_issue\<lparr>labels := Some ''needs-reply''\<rparr>"

definition retitled_issue :: issue where
  "retitled_issue = labeled_issue\<lparr>title := ''Crash on start (again)'', state := ''closed''\<rparr>"

definition strict_env :: env where
  "strict_env = demo_env\<lparr>PROTECTED_FIELDS := [F_github_issue_id, F_title, F_state, F_labels]\<rparr>"

definition blank_issue :: issue where
  "blank_issue = demo_issue\<lparr>labels := Some ''''\<rparr>"

definition blank_world :: world where
  "blank_world = \<lparr>rows = [blank_issue], trace = []\<rparr>"

definition plain_payload :: payload where
  "plain_payload = [(''action'', ''edited''), (''id'', ''42'')]"

definition labeled_payload :: payload where
  "labeled_payload = [(''action'', ''labeled''), (''id'', ''42''), (''labels'', ''needs-reply'')]"

definition connection_lost :: exn where
  "connection_lost = Exn ''OperationalError'' ''connection lost''"

definition broken_env :: env where
  "broken_env =
     demo_env\<lparr>raises := (\<lambda>w c. case c of Table_get k \<Rightarrow> Some connection_lost | _ \<Rightarrow> None)\<rparr>"

definition comment_api_down :: exn where
  "comment_api_down = Exn ''RuntimeError'' ''comment api down''"

definition notifier_down_env :: env where
  "notifier_down_env =
     demo_env\<lparr>raises :=
       (\<lambda>w c. case c of Send_issue_comment i s \<Rightarrow> Some comment_api_down | _ \<Rightarrow> None)\<rparr>"

definition log_down_env :: env where
  "log_down_env =
     demo_env\<lparr>raises :=
       (\<lambda>w c. case c of Log_similar_issues s i \<Rightarrow> Some connection_lost | _ \<Rightarrow> None)\<rparr>"

definition search_down_env :: env where
  "search_down_env =
     demo_env\<lparr>raises :=
       (\<lambda>w c. case c of Search_similar_issues i n \<Rightarrow> Some connection_lost | _ \<Rightarrow> None)\<rparr>"

definition labeled_world :: world where
  "labeled_world =
     \<lparr>rows = [labeled_issue],
      trace = [(Open_table ''issues'', None), (Table_get 42, None),
               (Table_update [(F_labels, POptStr (Some ''needs-reply''))]
                  [(F_github_issue_id, PInt 42)], None)]\<rparr>"

definition duplicate_entry :: exn where
  "duplicate_entry = Exn ''IntegrityError'' ''Duplicate entry for key github_issue_id''"

definition unique_env :: env where
  \<comment> \<open>A table that rejects the insert of an id it already holds.\<close>
  "unique_env =
     demo_env\<lparr>raises :=
       (\<lambda>w c. case c of
                 Table_insert i \<Rightarrow>
                   (case table_get (rows w) (github_issue_id i) of
                      None \<Rightarrow> None
                    | Some r \<Rightarrow> Some duplicate_entry)
               | _ \<Rightarrow> None)\<rparr>"

definition title_env :: env where
  "title_env = demo_env\<lparr>PROTECTED_FIELDS := [F_title]\<rparr>"

section \<open>Basic facts\<close>

lemmas demo_simps =
  demo_env_def demo_world_def demo_issue_def demo_mapper_def
  save_issue_to_database_def invoke_def Let_def any_reply_label_def has_label_def labels_list_def
  get_labels_list_def table_get_def fault_free_def diff_and_get_changed_fields_def all_fields_def
  dict_get_def dict_item_def apply_fields_def selected_def new_calls_def

lemma any_reply_label_truthy:
  "(if truthy (labels i) then any_reply_label E (get_labels_list E i) else False)
     = has_label E (REPLY_LABEL E) i"
  by (auto simp: any_reply_label_def has_label_def list_ex_iff labels_list_def)

lemma any_reply_label_list:
  "any_reply_label E (if truthy (labels i) then get_labels_list E i else [])
     = has_label E (REPLY_LABEL E) i"
  by (auto simp: any_reply_label_def has_label_def list_ex_iff labels_list_def)

lemma invoke_fault_free:
  "fault_free E \<Longrightarrow>
     invoke E c w = (None, w\<lparr>rows := effect c (rows w), trace := trace w @ [(c, None)]\<rparr>)"
  by (simp add: invoke_def fault_free_def)

section \<open>The reply decision on the update path\<close>

lemma save_update_decision:
  assumes "action \<noteq> ''opened''"
    and "table_get (rows w0) (github_issue_id issue) = Some existing"
    and "save_issue_to_database E issue action w0 = (Inr b, w1)"
  shows "b = (has_label E (REPLY_LABEL E) issue \<and> \<not> has_label E (REPLY_LABEL E) existing)"
  using assms
  by (auto simp: save_issue_to_database_def invoke_def Let_def any_reply_label_truthy
      split: option.splits if_splits)

lemma save_update_returns:
  assumes "action \<noteq> ''opened''"
    and "table_get (rows w0) (github_issue_id issue) = Some existing"
    and "fault_free E"
  shows "\<exists>w1. save_issue_to_database E issue action w0 =
     (Inr (has_label E (REPLY_LABEL E) issue \<and> \<not> has_label E (REPLY_LABEL E) existing), w1)"
  using assms
  by (simp add: save_issue_to_database_def invoke_fault_free Let_def any_reply_label_truthy)

text \<open>
  C2. On a non-creation event whose issue id is found in the table, the decision that
  \<^verbatim>\<open>save_issue_to_database\<close> returns is true exactly when the reply label is among the
  incoming labels and not among the stored record's labels. The routine returns a
  decision whenever no table call raises.
\<close>

theorem update_reply_decision:
  assumes "action \<noteq> ''opened''"
    and "table_get (rows w0) (github_issue_id issue) = Some existing"
  shows "(\<forall>b w1. save_issue_to_database E issue action w0 = (Inr b, w1) \<longrightarrow>
            b = (has_label E (REPLY_LABEL E) issue \<and> \<not> has_label E (REPLY_LABEL E) existing))
       \<and> (fault_free E \<longrightarrow>
            (\<exists>w1. save_issue_to_database E issue action w0 =
               (Inr (has_label E (REPLY_LABEL E) issue \<and> \<not> has_label E (REPLY_LABEL E) existing),
                w1)))"
  using save_update_decision [OF assms] save_update_returns [OF assms] by blast

theorem update_reply_decision_witness:
  "''labeled'' \<noteq> ''opened''
   \<and> table_get (rows demo_world) (github_issue_id (demo_issue\<lparr>labels := Some ''needs-reply''\<rparr>))
       = Some demo_issue
   \<and> fault_free demo_env
   \<and> has_label demo_env (REPLY_LABEL demo_env) (demo_issue\<lparr>labels := Some ''needs-reply''\<rparr>)
   \<and> \<not> has_label demo_env (REPLY_LABEL demo_env) demo_issue
   \<and> fst (save_issue_to_database demo_env (demo_issue\<lparr>labels := Some ''needs-reply''\<rparr>)
            ''labeled'' demo_world) = Inr True"
  using update_reply_decision [of "''labeled''" demo_world
      "demo_issue\<lparr>labels := Some ''needs-reply''\<rparr>" demo_issue demo_env]
  by (simp add: demo_simps)

lemma demo_labeled_has: "has_label demo_env (REPLY_LABEL demo_env) labeled_issue"
  by (simp add: has_label_def labels_list_def get_labels_list_def demo_env_def labeled_issue_def
      dict_get_def)

lemma demo_fault_free: "fault_free demo_env"
  by (simp add: fault_free_def demo_env_def)

section \<open>The creation path\<close>

lemma save_opened:
  assumes "save_issue_to_database E issue ''opened'' w0 = (Inr b, w1)"
  shows "b = has_label E (REPLY_LABEL E) issue
       \<and> rows w1 = rows w0 @ [issue]
       \<and> new_calls w0 w1 = [(Open_table (ISSUE_TABLE_NAME E), None), (Table_insert issue, None)]"
  using assms
  by (auto simp: save_issue_to_database_def invoke_def Let_def
      any_reply_label_list new_calls_def split: option.splits)

lemma save_not_found:
  assumes "action \<noteq> ''opened''"
    and "table_get (rows w0) (github_issue_id issue) = None"
    and "save_issue_to_database E issue action w0 = (Inr b, w1)"
  shows "b = has_label E (REPLY_LABEL E) issue
       \<and> rows w1 = rows w0 @ [issue]
       \<and> new_calls w0 w1 =
           [(Open_table (ISSUE_TABLE_NAME E), None),
            (Table_get (github_issue_id issue), None), (Table_insert issue, None)]"
  using assms
  by (auto simp: save_issue_to_database_def invoke_def Let_def
      any_reply_label_truthy new_calls_def split: option.splits)

lemma save_creation_returns:
  assumes "action = ''opened'' \<or> table_get (rows w0) (github_issue_id issue) = None"
    and "fault_free E"
  shows "\<exists>w1. save_issue_to_database E issue action w0 =
     (Inr (has_label E (REPLY_LABEL E) issue), w1)"
proof (cases "action = ''opened''")
  case True
  then show ?thesis using assms(2)
    by (simp add: save_issue_to_database_def invoke_fault_free Let_def any_reply_label_list)
next
  case False
  then have "table_get (rows w0) (github_issue_id issue) = None" using assms(1) by simp
  then show ?thesis using assms(2) False
    by (simp add: save_issue_to_database_def invoke_fault_free Let_def any_reply_label_truthy)
qed

text \<open>
  C3. On the creation path (the action is \<^verbatim>\<open>opened\<close>, or it is another action and the
  lookup finds no record with the issue's id) a run of \<^verbatim>\<open>save_issue_to_database\<close> that
  returns has inserted the issue: the table calls are the opening, the lookup when the
  action is not \<^verbatim>\<open>opened\<close>, and one insert of the incoming issue, which is the new last
  row. No stored labels enter the decision: it is true exactly when the reply label is
  among the incoming labels. The routine returns whenever no table call raises.
\<close>

theorem creation_path_decision:
  assumes "action = ''opened'' \<or> table_get (rows w0) (github_issue_id issue) = None"
  shows "(\<forall>b w1. save_issue_to_database E issue action w0 = (Inr b, w1) \<longrightarrow>
            b = has_label E (REPLY_LABEL E) issue
          \<and> rows w1 = rows w0 @ [issue]
          \<and> new_calls w0 w1 =
              (if action = ''opened''
               then [(Open_table (ISSUE_TABLE_NAME E), None), (Table_insert issue, None)]
               else [(Open_table (ISSUE_TABLE_NAME E), None),
                     (Table_get (github_issue_id issue), None), (Table_insert issue, None)]))
       \<and> (fault_free E \<longrightarrow>
            (\<exists>w1. save_issue_to_database E issue action w0 =
               (Inr (has_label E (REPLY_LABEL E) issue), w1)))"
proof (intro conjI allI impI)
  fix b w1
  assume s: "save_issue_to_database E issue action w0 = (Inr b, w1)"
  show "b = has_label E (REPLY_LABEL E) issue"
    using assms s save_opened [of E issue w0 b w1] save_not_found [of action w0 issue E b w1]
    by (cases "action = ''opened''") simp_all
  show "rows w1 = rows w0 @ [issue]"
    using assms s save_opened [of E issue w0 b w1] save_not_found [of action w0 issue E b w1]
    by (cases "action = ''opened''") simp_all
  show "new_calls w0 w1 =
              (if action = ''opened''
               then [(Open_table (ISSUE_TABLE_NAME E), None), (Table_insert issue, None)]
               else [(Open_table (ISSUE_TABLE_NAME E), None),
                     (Table_get (github_issue_id issue), None), (Table_insert issue, None)])"
    using assms s save_opened [of E issue w0 b w1] save_not_found [of action w0 issue E b w1]
    by (cases "action = ''opened''") simp_all
next
  assume "fault_free E"
  then show "\<exists>w1. save_issue_to_database E issue action w0 =
               (Inr (has_label E (REPLY_LABEL E) issue), w1)"
    using save_creation_returns [OF assms] by simp
qed

theorem creation_path_decision_witness:
  "table_get (rows empty_world) (github_issue_id labeled_issue) = None
   \<and> fault_free demo_env
   \<and> has_label demo_env (REPLY_LABEL demo_env) labeled_issue
   \<and> fst (save_issue_to_database demo_env labeled_issue ''edited'' empty_world) = Inr True
   \<and> rows (snd (save_issue_to_database demo_env labeled_issue ''edited'' empty_world))
       = [labeled_issue]"
proof -
  have g: "table_get (rows empty_world) (github_issue_id labeled_issue) = None"
    by (simp add: table_get_def empty_world_def)
  have r: "rows empty_world = []" by (simp add: empty_world_def)
  from creation_path_decision [of "''edited''" empty_world labeled_issue demo_env] g
  obtain w1 where s: "save_issue_to_database demo_env labeled_issue ''edited'' empty_world
       = (Inr (has_label demo_env (REPLY_LABEL demo_env) labeled_issue), w1)"
    and w: "rows w1 = rows empty_world @ [labeled_issue]"
    using demo_fault_free by blast
  show ?thesis using g s w r demo_fault_free demo_labeled_has by simp
qed

lemma has_label_cong:
  assumes "labels i1 = labels i2" and "json_labels E1 = json_labels E2"
  shows "has_label E1 n i1 = has_label E2 n i2"
  using assms by (simp add: has_label_def labels_list_def get_labels_list_def)

lemma falsy_no_label: "\<not> truthy (labels i) \<Longrightarrow> \<not> has_label E n i"
  by (simp add: has_label_def labels_list_def)

lemma save_decision_cases:
  assumes "save_issue_to_database E issue action w0 = (Inr b, w1)"
  shows "b = (has_label E (REPLY_LABEL E) issue \<and>
              (action = ''opened'' \<or>
               (case table_get (rows w0) (github_issue_id issue) of
                  None \<Rightarrow> True
                | Some ex \<Rightarrow> \<not> has_label E (REPLY_LABEL E) ex)))"
proof (cases "action = ''opened''")
  case True
  then show ?thesis using assms save_opened [of E issue w0 b w1] by simp
next
  case False
  show ?thesis
  proof (cases "table_get (rows w0) (github_issue_id issue)")
    case None
    then show ?thesis using False assms save_not_found [of action w0 issue E b w1] by simp
  next
    case (Some ex)
    then show ?thesis using False assms save_update_decision [of action w0 issue ex E b w1]
      by simp
  qed
qed

lemma save_returns:
  assumes "fault_free E"
  shows "\<exists>w1. save_issue_to_database E issue action w0 =
     (Inr (has_label E (REPLY_LABEL E) issue \<and>
              (action = ''opened'' \<or>
               (case table_get (rows w0) (github_issue_id issue) of
                  None \<Rightarrow> True
                | Some ex \<Rightarrow> \<not> has_label E (REPLY_LABEL E) ex))), w1)"
proof (cases "action = ''opened''")
  case True
  then show ?thesis using assms save_creation_returns [of action w0 issue E] by simp
next
  case False
  show ?thesis
  proof (cases "table_get (rows w0) (github_issue_id issue)")
    case None
    then show ?thesis using False assms save_creation_returns [of action w0 issue E] by simp
  next
    case (Some ex)
    then show ?thesis using False assms save_update_returns [of action w0 issue ex E] by simp
  qed
qed

section \<open>What the decision depends on\<close>

text \<open>
  C9. On non-creation events whose issue id is found in the table, the returned decision
  is a function of the labels attribute of the incoming issue and of the stored record
  alone (for a given reply label and label decoder): two runs that agree on these
  return the same decision, whatever the other attributes of the incoming issues, the
  actions, the protected fields, the diff and the table writes are.
\<close>

theorem decision_depends_on_labels_only:
  assumes "a1 \<noteq> ''opened''" and "a2 \<noteq> ''opened''"
    and "table_get (rows w) (github_issue_id i1) = Some ex1"
    and "table_get (rows w') (github_issue_id i2) = Some ex2"
    and "labels i1 = labels i2" and "labels ex1 = labels ex2"
    and "REPLY_LABEL E1 = REPLY_LABEL E2" and "json_labels E1 = json_labels E2"
    and "save_issue_to_database E1 i1 a1 w = (Inr b1, w1)"
    and "save_issue_to_database E2 i2 a2 w' = (Inr b2, w2)"
  shows "b1 = b2"
proof -
  have 1: "b1 = (has_label E1 (REPLY_LABEL E1) i1 \<and> \<not> has_label E1 (REPLY_LABEL E1) ex1)"
    using assms(1,3,9) by (rule save_update_decision)
  have 2: "b2 = (has_label E2 (REPLY_LABEL E2) i2 \<and> \<not> has_label E2 (REPLY_LABEL E2) ex2)"
    using assms(2,4,10) by (rule save_update_decision)
  have 3: "has_label E1 (REPLY_LABEL E1) i1 = has_label E2 (REPLY_LABEL E2) i2"
    using has_label_cong [OF assms(5) assms(8), of "REPLY_LABEL E2"] assms(7) by simp
  have 4: "has_label E1 (REPLY_LABEL E1) ex1 = has_label E2 (REPLY_LABEL E2) ex2"
    using has_label_cong [OF assms(6) assms(8), of "REPLY_LABEL E2"] assms(7) by simp
  show ?thesis by (simp only: 1 2 3 4)
qed

lemma demo_found: "table_get (rows demo_world) 42 = Some demo_issue"
  by (simp add: table_get_def demo_world_def demo_issue_def)

lemma demo_diff_labeled:
  "diff_and_get_changed_fields demo_env demo_issue labeled_issue
     = [(F_labels, POptStr (Some ''needs-reply''))]"
  by (simp add: diff_and_get_changed_fields_def all_fields_def demo_env_def demo_issue_def
      labeled_issue_def)

lemma strict_diff_retitled:
  "diff_and_get_changed_fields strict_env demo_issue retitled_issue = []"
  by (simp add: diff_and_get_changed_fields_def all_fields_def demo_env_def demo_issue_def
      labeled_issue_def retitled_issue_def strict_env_def)

lemma strict_fault_free: "fault_free strict_env"
  by (simp add: fault_free_def demo_env_def strict_env_def)

lemma ids_42:
  "github_issue_id labeled_issue = 42" "github_issue_id retitled_issue = 42"
  "labels retitled_issue = labels labeled_issue"
  by (simp_all add: labeled_issue_def retitled_issue_def demo_issue_def)

lemma strict_same:
  "REPLY_LABEL strict_env = REPLY_LABEL demo_env" "json_labels strict_env = json_labels demo_env"
  by (simp_all add: strict_env_def)

theorem decision_depends_on_labels_only_witness:
  "fst (save_issue_to_database demo_env labeled_issue ''labeled'' demo_world) = Inr True
   \<and> fst (save_issue_to_database strict_env retitled_issue ''edited'' demo_world) = Inr True
   \<and> diff_and_get_changed_fields demo_env demo_issue labeled_issue \<noteq> []
   \<and> diff_and_get_changed_fields strict_env demo_issue retitled_issue = []
   \<and> title retitled_issue \<noteq> title labeled_issue"
proof -
  have n: "\<not> has_label demo_env (REPLY_LABEL demo_env) demo_issue"
    by (simp add: falsy_no_label demo_issue_def)
  obtain w1 where s1: "save_issue_to_database demo_env labeled_issue ''labeled'' demo_world
      = (Inr True, w1)"
    using save_update_returns [of "''labeled''" demo_world labeled_issue demo_issue demo_env]
      demo_found demo_fault_free demo_labeled_has n ids_42 by auto
  obtain b2 w2 where s2: "save_issue_to_database strict_env retitled_issue ''edited'' demo_world
      = (Inr b2, w2)"
    using save_update_returns [of "''edited''" demo_world retitled_issue demo_issue strict_env]
      demo_found strict_fault_free ids_42 by auto
  have "True = b2"
    using decision_depends_on_labels_only [of "''labeled''" "''edited''" demo_world labeled_issue
        demo_issue demo_world retitled_issue demo_issue demo_env strict_env True w1 b2 w2]
      demo_found ids_42 strict_same s1 s2 by simp
  then show ?thesis
    using s1 s2 demo_diff_labeled strict_diff_retitled
    by (simp add: retitled_issue_def labeled_issue_def demo_issue_def)
qed

section \<open>Missing and falsy labels\<close>

text \<open>
  C10. A falsy labels attribute counts as no labels on both sides. When the incoming
  issue's labels attribute is falsy, every returned decision is false, for every action
  and every table. When the stored record's labels attribute is falsy, the decision on
  the update path is true exactly when the reply label is among the incoming labels.
  In both cases the routine returns whenever no table call raises.
\<close>

theorem falsy_labels_decision:
  "(\<not> truthy (labels issue) \<longrightarrow>
      (\<forall>b w1. save_issue_to_database E issue action w0 = (Inr b, w1) \<longrightarrow> \<not> b)
      \<and> (fault_free E \<longrightarrow> (\<exists>w1. save_issue_to_database E issue action w0 = (Inr False, w1))))
   \<and> (action \<noteq> ''opened'' \<and> table_get (rows w0) (github_issue_id issue) = Some existing
        \<and> \<not> truthy (labels existing) \<longrightarrow>
      (\<forall>b w1. save_issue_to_database E issue action w0 = (Inr b, w1) \<longrightarrow>
          b = has_label E (REPLY_LABEL E) issue)
      \<and> (fault_free E \<longrightarrow>
          (\<exists>w1. save_issue_to_database E issue action w0 =
             (Inr (has_label E (REPLY_LABEL E) issue), w1))))"
proof (intro conjI impI allI)
  fix b w1
  assume "\<not> truthy (labels issue)" and "save_issue_to_database E issue action w0 = (Inr b, w1)"
  then show "\<not> b"
    using save_decision_cases [of E issue action w0 b w1] falsy_no_label [of issue E "REPLY_LABEL E"]
    by simp
next
  assume "\<not> truthy (labels issue)" and "fault_free E"
  then show "\<exists>w1. save_issue_to_database E issue action w0 = (Inr False, w1)"
    using save_returns [of E issue action w0] falsy_no_label [of issue E "REPLY_LABEL E"]
    by simp
next
  fix b w1
  assume h: "action \<noteq> ''opened'' \<and> table_get (rows w0) (github_issue_id issue) = Some existing
        \<and> \<not> truthy (labels existing)"
    and s: "save_issue_to_database E issue action w0 = (Inr b, w1)"
  have "\<not> has_label E (REPLY_LABEL E) existing"
    using h by (simp add: falsy_no_label)
  then show "b = has_label E (REPLY_LABEL E) issue"
    using save_update_decision [of action w0 issue existing E b w1] h s by simp
next
  assume h: "action \<noteq> ''opened'' \<and> table_get (rows w0) (github_issue_id issue) = Some existing
        \<and> \<not> truthy (labels existing)"
    and f: "fault_free E"
  have "\<not> has_label E (REPLY_LABEL E) existing"
    using h by (simp add: falsy_no_label)
  then show "\<exists>w1. save_issue_to_database E issue action w0 =
             (Inr (has_label E (REPLY_LABEL E) issue), w1)"
    using save_update_returns [of action w0 issue existing E] h f by simp
qed

lemma blank_found: "table_get (rows blank_world) 42 = Some blank_issue"
  by (simp add: table_get_def blank_world_def blank_issue_def demo_issue_def)

lemma blank_falsy: "\<not> truthy (labels blank_issue)" "\<not> truthy (labels demo_issue)"
  by (simp_all add: blank_issue_def demo_issue_def)

theorem falsy_labels_decision_witness:
  "\<not> truthy (labels blank_issue)
   \<and> fst (save_issue_to_database demo_env blank_issue ''opened'' demo_world) = Inr False
   \<and> fst (save_issue_to_database demo_env blank_issue ''labeled'' demo_world) = Inr False
   \<and> table_get (rows blank_world) (github_issue_id labeled_issue) = Some blank_issue
   \<and> fst (save_issue_to_database demo_env labeled_issue ''labeled'' blank_world) = Inr True"
proof -
  have a: "\<exists>w1. save_issue_to_database demo_env blank_issue ''opened'' demo_world = (Inr False, w1)"
    using falsy_labels_decision [of blank_issue demo_env "''opened''" demo_world demo_issue]
      blank_falsy demo_fault_free by blast
  have b: "\<exists>w1. save_issue_to_database demo_env blank_issue ''labeled'' demo_world = (Inr False, w1)"
    using falsy_labels_decision [of blank_issue demo_env "''labeled''" demo_world demo_issue]
      blank_falsy demo_fault_free by blast
  have g: "table_get (rows blank_world) (github_issue_id labeled_issue) = Some blank_issue"
    using blank_found ids_42 by simp
  have c: "\<exists>w1. save_issue_to_database demo_env labeled_issue ''labeled'' blank_world
       = (Inr (has_label demo_env (REPLY_LABEL demo_env) labeled_issue), w1)"
    using falsy_labels_decision [of labeled_issue demo_env "''labeled''" blank_world blank_issue]
      blank_falsy demo_fault_free g by simp
  show ?thesis using a b c g blank_falsy demo_labeled_has by auto
qed

lemma save_trace_opened:
  assumes "save_issue_to_database E issue ''opened'' w0 = (r, w1)"
  shows "\<exists>xs. trace w1 = trace w0 @ xs \<and> table_only xs
       \<and> (\<forall>c e. (c, Some e) \<in> set xs \<longrightarrow> r = Inl e)
       \<and> (\<forall>e. r = Inl e \<longrightarrow> (\<exists>c. (c, Some e) \<in> set xs))"
  using assms
  by (auto simp: save_issue_to_database_def invoke_def Let_def table_only_def
      split: option.splits)

lemma save_trace_other:
  assumes "action \<noteq> ''opened''"
    and "save_issue_to_database E issue action w0 = (r, w1)"
  shows "\<exists>xs. trace w1 = trace w0 @ xs \<and> table_only xs
       \<and> (\<forall>c e. (c, Some e) \<in> set xs \<longrightarrow> r = Inl e)
       \<and> (\<forall>e. r = Inl e \<longrightarrow> (\<exists>c. (c, Some e) \<in> set xs))"
proof (cases "table_get (rows w0) (github_issue_id issue)")
  case None
  then show ?thesis using assms
    by (auto simp: save_issue_to_database_def invoke_def Let_def table_only_def
        split: option.splits)
next
  case (Some ex)
  show ?thesis
  proof (cases "diff_and_get_changed_fields E ex issue = []")
    case True
    then show ?thesis using assms Some
      by (auto simp: save_issue_to_database_def invoke_def Let_def table_only_def
          split: option.splits)
  next
    case False
    then show ?thesis using assms Some
      by (auto simp: save_issue_to_database_def invoke_def Let_def table_only_def
          split: option.splits)
  qed
qed

lemma save_trace:
  assumes "save_issue_to_database E issue action w0 = (r, w1)"
  shows "\<exists>xs. trace w1 = trace w0 @ xs \<and> table_only xs
       \<and> (\<forall>c e. (c, Some e) \<in> set xs \<longrightarrow> r = Inl e)
       \<and> (\<forall>e. r = Inl e \<longrightarrow> (\<exists>c. (c, Some e) \<in> set xs))"
  using assms save_trace_opened [of E issue w0 r w1] save_trace_other [of action E issue w0 r w1]
  by (cases "action = ''opened''") simp_all

lemma save_new_calls:
  assumes "save_issue_to_database E issue action w0 = (r, w1)"
  shows "table_only (new_calls w0 w1)
       \<and> (\<forall>c e. (c, Some e) \<in> set (new_calls w0 w1) \<longrightarrow> r = Inl e)
       \<and> (\<forall>e. r = Inl e \<longrightarrow> (\<exists>c. (c, Some e) \<in> set (new_calls w0 w1)))"
proof -
  from save_trace [OF assms] obtain xs where
    "trace w1 = trace w0 @ xs" and p: "table_only xs"
    "\<forall>c e. (c, Some e) \<in> set xs \<longrightarrow> r = Inl e"
    "\<forall>e. r = Inl e \<longrightarrow> (\<exists>c. (c, Some e) \<in> set xs)"
    by blast
  then have "new_calls w0 w1 = xs" by (simp add: new_calls_def)
  then show ?thesis using p by simp
qed

lemma table_only_no_enrichment: "table_only xs \<Longrightarrow> enrichment_calls xs = []"
  by (induction xs) (auto simp: table_only_def enrichment_calls_def elim: is_table_call.elims)

lemma table_only_mem: "table_only xs \<Longrightarrow> (c, x) \<in> set xs \<Longrightarrow> is_table_call c"
  by (auto simp: table_only_def list_all_iff)

section \<open>The handler around the persistence step\<close>

lemma handler_after_save:
  assumes "from_webhook_payload E data = Inr issue"
    and "label_names E issue = Inr ns" and "assignee_logins E issue = Inr ls"
  shows "github_webhook_issues E data w0 =
     (case save_issue_to_database E issue (event_action data) w0 of
        (Inl e, w1) \<Rightarrow> (error_response e, w1)
      | (Inr should_reply, w1) \<Rightarrow>
          if \<not> should_reply then (skipped_response, w1)
          else (case search_step E issue w1 of
                  (similar_issues, w2) \<Rightarrow>
                    comment_step E (event_action data) issue similar_issues w2))"
  using assms by (simp add: github_webhook_issues_def Let_def)

text \<open>
  C5. When the persistence step returns the decision False, the handler returns at once
  the response \<^verbatim>\<open>{'status': 'success', 'message': 'Issue skipped (not marked for
  reply)'}\<close>; its status is one of success, skipped and error; the world it leaves is the
  one the persistence step left, and the run made no search call and no comment call.
\<close>

theorem skipped_without_enrichment:
  assumes "from_webhook_payload E data = Inr issue"
    and "label_names E issue = Inr ns" and "assignee_logins E issue = Inr ls"
    and "save_issue_to_database E issue (event_action data) w0 = (Inr False, w1)"
  shows "github_webhook_issues E data w0 = (skipped_response, w1)
       \<and> message (fst skipped_response) = ''Issue skipped (not marked for reply)''
       \<and> status (fst skipped_response) \<in> {''success'', ''skipped'', ''error''}
       \<and> enrichment_calls (new_calls w0 (snd (github_webhook_issues E data w0))) = []"
proof -
  have h: "github_webhook_issues E data w0 = (skipped_response, w1)"
    using handler_after_save [OF assms(1,2,3), of w0] assms(4) by simp
  have "table_only (new_calls w0 w1)"
    using save_new_calls [OF assms(4)] by simp
  then have "enrichment_calls (new_calls w0 w1) = []"
    by (rule table_only_no_enrichment)
  then show ?thesis using h by (simp add: skipped_response_def)
qed

lemma plain_mapped: "from_webhook_payload demo_env plain_payload = Inr demo_issue"
  by (simp add: demo_env_def demo_mapper_def plain_payload_def dict_item_def dict_get_def
      demo_issue_def)

lemma plain_action: "event_action plain_payload = ''edited''"
  by (simp add: event_action_def plain_payload_def dict_get_def)

lemma plain_names: "label_names demo_env demo_issue = Inr []"
  "assignee_logins demo_env demo_issue = Inr []"
  by (simp_all add: label_names_def assignee_logins_def demo_issue_def)

lemma plain_run:
  "save_issue_to_database demo_env demo_issue ''edited'' demo_world =
     (Inr False,
      \<lparr>rows = [demo_issue], trace = [(Open_table ''issues'', None), (Table_get 42, None)]\<rparr>)"
  by (simp add: save_issue_to_database_def invoke_def Let_def demo_env_def demo_world_def
      demo_issue_def table_get_def diff_and_get_changed_fields_def all_fields_def
      any_reply_label_def)

theorem skipped_without_enrichment_witness:
  "from_webhook_payload demo_env plain_payload = Inr demo_issue
   \<and> save_issue_to_database demo_env demo_issue (event_action plain_payload) demo_world =
       (Inr False,
        \<lparr>rows = [demo_issue], trace = [(Open_table ''issues'', None), (Table_get 42, None)]\<rparr>)
   \<and> github_webhook_issues demo_env plain_payload demo_world =
       ((\<lparr>status = ''success'', message = ''Issue skipped (not marked for reply)''\<rparr>, OK),
        \<lparr>rows = [demo_issue], trace = [(Open_table ''issues'', None), (Table_get 42, None)]\<rparr>)"
  using skipped_without_enrichment [of demo_env plain_payload demo_issue "[]" "[]" demo_world
      "\<lparr>rows = [demo_issue], trace = [(Open_table ''issues'', None), (Table_get 42, None)]\<rparr>"]
    plain_mapped plain_names plain_action plain_run
  by (simp add: skipped_response_def)

text \<open>
  C6. When a table call (the opening, the lookup, the insert or the update) raises during
  \<^verbatim>\<open>save_issue_to_database\<close>, the routine raises the same exception and returns no
  decision; the run has made table calls only, so no search and no comment was attempted;
  and the handler answers with the error response built from that exception.
\<close>

theorem table_error_propagates:
  assumes "save_issue_to_database E issue action w0 = (r, w1)"
    and "(c, Some e) \<in> set (new_calls w0 w1)"
  shows "r = Inl e \<and> is_table_call c
       \<and> (from_webhook_payload E data = Inr issue \<and> event_action data = action
            \<and> label_names E issue = Inr ns \<and> assignee_logins E issue = Inr ls
          \<longrightarrow> github_webhook_issues E data w0 = (error_response e, w1)
              \<and> enrichment_calls (new_calls w0 (snd (github_webhook_issues E data w0))) = [])"
proof -
  have t: "table_only (new_calls w0 w1)" and r: "r = Inl e"
    using save_new_calls [OF assms(1)] assms(2) by blast+
  have c: "is_table_call c"
    using t assms(2) by (rule table_only_mem)
  have n: "enrichment_calls (new_calls w0 w1) = []"
    using t by (rule table_only_no_enrichment)
  have i: "from_webhook_payload E data = Inr issue \<and> event_action data = action
            \<and> label_names E issue = Inr ns \<and> assignee_logins E issue = Inr ls
          \<longrightarrow> github_webhook_issues E data w0 = (error_response e, w1)
              \<and> enrichment_calls (new_calls w0 (snd (github_webhook_issues E data w0))) = []"
  proof (rule impI)
    assume h: "from_webhook_payload E data = Inr issue \<and> event_action data = action
            \<and> label_names E issue = Inr ns \<and> assignee_logins E issue = Inr ls"
    then have "github_webhook_issues E data w0 = (error_response e, w1)"
      using handler_after_save [of E data issue ns ls w0] assms(1) r by simp
    then show "github_webhook_issues E data w0 = (error_response e, w1)
              \<and> enrichment_calls (new_calls w0 (snd (github_webhook_issues E data w0))) = []"
      using n by simp
  qed
  show ?thesis by (intro conjI r c i)
qed

lemma labeled_mapped: "from_webhook_payload broken_env labeled_payload = Inr labeled_issue"
  by (simp add: broken_env_def demo_env_def demo_mapper_def labeled_payload_def dict_item_def
      dict_get_def labeled_issue_def)

lemma labeled_action: "event_action labeled_payload = ''labeled''"
  by (simp add: event_action_def labeled_payload_def dict_get_def)

lemma labeled_names:
  "label_names broken_env labeled_issue = Inr [''needs-reply'']"
  "assignee_logins broken_env labeled_issue = Inr []"
  by (simp_all add: label_names_def assignee_logins_def labeled_issue_def demo_issue_def
      get_labels_list_def broken_env_def demo_env_def dict_item_def)

lemma broken_run:
  "save_issue_to_database broken_env labeled_issue ''labeled'' demo_world =
     (Inl connection_lost,
      \<lparr>rows = [demo_issue],
       trace = [(Open_table ''issues'', None), (Table_get 42, Some connection_lost)]\<rparr>)"
  by (simp add: save_issue_to_database_def invoke_def Let_def broken_env_def demo_env_def
      demo_world_def labeled_issue_def demo_issue_def)

theorem table_error_propagates_witness:
  "save_issue_to_database broken_env labeled_issue ''labeled'' demo_world =
     (Inl connection_lost,
      \<lparr>rows = [demo_issue],
       trace = [(Open_table ''issues'', None), (Table_get 42, Some connection_lost)]\<rparr>)
   \<and> from_webhook_payload broken_env labeled_payload = Inr labeled_issue
   \<and> github_webhook_issues broken_env labeled_payload demo_world =
       ((\<lparr>status = ''error'', message = ''connection lost''\<rparr>, INTERNAL_SERVER_ERROR),
        \<lparr>rows = [demo_issue],
         trace = [(Open_table ''issues'', None), (Table_get 42, Some connection_lost)]\<rparr>)"
  using table_error_propagates [of broken_env labeled_issue "''labeled''" demo_world
      "Inl connection_lost"
      "\<lparr>rows = [demo_issue],
         trace = [(Open_table ''issues'', None), (Table_get 42, Some connection_lost)]\<rparr>"
      "Table_get 42" connection_lost labeled_payload "[''needs-reply'']" "[]"]
    broken_run labeled_mapped labeled_action labeled_names
  by (simp add: new_calls_def demo_world_def error_response_def connection_lost_def)

section \<open>The search and comment steps\<close>

lemma success_not_error [simp]: "success_response \<noteq> error_response e"
  by (simp add: success_response_def error_response_def)

lemma error_not_success [simp]: "error_response e \<noteq> success_response"
  by (simp add: success_response_def error_response_def)

lemma search_step_returns:
  assumes "raises E w1 (Search_similar_issues issue 10) = None"
    and "search_step E issue w1 = (s, w2)"
  shows "s = Some (search_result E w1 issue 10)
       \<and> (\<exists>x. trace w2 = trace w1 @
              [(Search_similar_issues issue 10, None),
               (Log_similar_issues (search_result E w1 issue 10) issue, x)])"
  using assms
  by (auto simp: search_step_def invoke_def Let_def split: option.splits)

lemma comment_step_bound:
  assumes "comment_step E a issue (Some sim) w2 = (resp, w3)"
  shows "\<exists>ys. trace w3 = trace w2 @ ys
       \<and> list_all (\<lambda>(c, x). is_comment_call c) ys
       \<and> (resp = success_response) = (\<forall>c e. (c, Some e) \<notin> set ys)
       \<and> (\<forall>c e. (c, Some e) \<in> set ys \<longrightarrow> resp = error_response e)"
  using assms
  by (auto simp: comment_step_def invoke_def Let_def split: option.splits if_splits)

lemma handler_reply:
  assumes "from_webhook_payload E data = Inr issue"
    and "label_names E issue = Inr ns" and "assignee_logins E issue = Inr ls"
    and "save_issue_to_database E issue (event_action data) w0 = (Inr True, w1)"
    and "search_step E issue w1 = (s, w2)"
  shows "github_webhook_issues E data w0 = comment_step E (event_action data) issue s w2"
  using handler_after_save [OF assms(1,2,3), of w0] assms(4,5) by simp

text \<open>
  C1, as the code has it. Take an event whose persistence step succeeds with the decision
  True and whose similarity search returns. An exception raised while the search results
  are logged is swallowed. The handler returns the success response exactly when neither
  \<^verbatim>\<open>should_send_comment\<close> nor \<^verbatim>\<open>send_issue_comment\<close> raises; an exception raised by either
  of them is caught by the outer handler and produces the error response carrying its
  message.
\<close>

theorem comment_failure_is_error:
  assumes "from_webhook_payload E data = Inr issue"
    and "label_names E issue = Inr ns" and "assignee_logins E issue = Inr ls"
    and "save_issue_to_database E issue (event_action data) w0 = (Inr True, w1)"
    and "raises E w1 (Search_similar_issues issue 10) = None"
  shows "(fst (github_webhook_issues E data w0) = success_response) =
           (\<not> (\<exists>c e. is_comment_call c \<and>
                  (c, Some e) \<in> set (new_calls w1 (snd (github_webhook_issues E data w0)))))
       \<and> (\<forall>c e. is_comment_call c \<and>
                  (c, Some e) \<in> set (new_calls w1 (snd (github_webhook_issues E data w0)))
             \<longrightarrow> fst (github_webhook_issues E data w0) = error_response e)"
proof -
  obtain s w2 where st: "search_step E issue w1 = (s, w2)"
    by (cases "search_step E issue w1")
  from search_step_returns [OF assms(5) st] obtain x where
    s: "s = Some (search_result E w1 issue 10)" and
    t2: "trace w2 = trace w1 @
              [(Search_similar_issues issue 10, None),
               (Log_similar_issues (search_result E w1 issue 10) issue, x)]"
    by blast
  obtain resp w3 where cs: "comment_step E (event_action data) issue s w2 = (resp, w3)"
    by (cases "comment_step E (event_action data) issue s w2")
  from comment_step_bound [OF cs [unfolded s]] obtain ys where
    t3: "trace w3 = trace w2 @ ys" and
    cc: "list_all (\<lambda>(c, x). is_comment_call c) ys" and
    ok: "(resp = success_response) = (\<forall>c e. (c, Some e) \<notin> set ys)" and
    er: "\<forall>c e. (c, Some e) \<in> set ys \<longrightarrow> resp = error_response e"
    by blast
  have h: "github_webhook_issues E data w0 = (resp, w3)"
    using handler_reply [OF assms(1,2,3,4) st] cs by simp
  have n: "new_calls w1 w3 =
      [(Search_similar_issues issue 10, None),
       (Log_similar_issues (search_result E w1 issue 10) issue, x)] @ ys"
    using t2 t3 by (simp add: new_calls_def)
  have m: "\<And>c e. (is_comment_call c \<and> (c, Some e) \<in> set (new_calls w1 w3))
             = ((c, Some e) \<in> set ys)"
    using cc by (auto simp: n list_all_iff)
  show ?thesis
    unfolding h fst_conv snd_conv m using ok er by blast
qed

subsection \<open>Runs of the sample configuration\<close>

lemma sample_mapped:
  "from_webhook_payload (demo_env\<lparr>raises := R\<rparr>) labeled_payload = Inr labeled_issue"
  by (simp add: demo_env_def demo_mapper_def labeled_payload_def dict_item_def
      dict_get_def labeled_issue_def)

lemma sample_names:
  "label_names (demo_env\<lparr>raises := R\<rparr>) labeled_issue = Inr [''needs-reply'']"
  "assignee_logins (demo_env\<lparr>raises := R\<rparr>) labeled_issue = Inr []"
  by (simp_all add: label_names_def assignee_logins_def labeled_issue_def demo_issue_def
      get_labels_list_def demo_env_def dict_item_def)

lemma sample_run:
  assumes "\<And>w c. is_table_call c \<Longrightarrow> R w c = None"
  shows "save_issue_to_database (demo_env\<lparr>raises := R\<rparr>) labeled_issue ''labeled'' demo_world
     = (Inr True, labeled_world)"
  using assms
  by (simp add: save_issue_to_database_def invoke_def Let_def demo_env_def demo_world_def
      labeled_issue_def demo_issue_def table_get_def diff_and_get_changed_fields_def
      all_fields_def any_reply_label_def get_labels_list_def dict_get_def apply_fields_def
      selected_def labeled_world_def)

lemma sample_handler:
  assumes "\<And>w c. is_table_call c \<Longrightarrow> R w c = None"
    and "search_step (demo_env\<lparr>raises := R\<rparr>) labeled_issue labeled_world = (s, w2)"
  shows "github_webhook_issues (demo_env\<lparr>raises := R\<rparr>) labeled_payload demo_world
     = comment_step (demo_env\<lparr>raises := R\<rparr>) ''labeled'' labeled_issue s w2"
  using handler_reply [of "demo_env\<lparr>raises := R\<rparr>" labeled_payload labeled_issue
      "[''needs-reply'']" "[]" demo_world labeled_world s w2]
    sample_mapped sample_names sample_run [OF assms(1)] assms(2) labeled_action by simp

lemma log_down_search:
  "search_step log_down_env labeled_issue labeled_world =
     (Some [], labeled_world\<lparr>trace := trace labeled_world @
        [(Search_similar_issues labeled_issue 10, None),
         (Log_similar_issues [] labeled_issue, Some connection_lost)]\<rparr>)"
  by (simp add: search_step_def invoke_def Let_def log_down_env_def demo_env_def)

lemma log_down_handler:
  "github_webhook_issues log_down_env labeled_payload demo_world =
     (success_response,
      labeled_world\<lparr>trace := trace labeled_world @
        [(Search_similar_issues labeled_issue 10, None),
         (Log_similar_issues [] labeled_issue, Some connection_lost),
         (Should_send_comment ''labeled'' labeled_issue [], None),
         (Send_issue_comment labeled_issue [], None)]\<rparr>)"
proof -
  have "github_webhook_issues log_down_env labeled_payload demo_world =
      comment_step log_down_env ''labeled'' labeled_issue (Some [])
        (labeled_world\<lparr>trace := trace labeled_world @
        [(Search_similar_issues labeled_issue 10, None),
         (Log_similar_issues [] labeled_issue, Some connection_lost)]\<rparr>)"
    unfolding log_down_env_def
    by (rule sample_handler)
      (auto simp: log_down_search [unfolded log_down_env_def] split: call.splits)
  then show ?thesis
    by (simp add: comment_step_def invoke_def log_down_env_def demo_env_def)
qed

lemma notifier_down_search:
  "search_step notifier_down_env labeled_issue labeled_world =
     (Some [], labeled_world\<lparr>trace := trace labeled_world @
        [(Search_similar_issues labeled_issue 10, None),
         (Log_similar_issues [] labeled_issue, None)]\<rparr>)"
  by (simp add: search_step_def invoke_def Let_def notifier_down_env_def demo_env_def)

lemma search_down_search:
  "search_step search_down_env labeled_issue labeled_world =
     (None, labeled_world\<lparr>trace := trace labeled_world @
        [(Search_similar_issues labeled_issue 10, Some connection_lost)]\<rparr>)"
  by (simp add: search_step_def invoke_def Let_def search_down_env_def demo_env_def)

theorem comment_failure_is_error_witness:
  "from_webhook_payload log_down_env labeled_payload = Inr labeled_issue
   \<and> save_issue_to_database log_down_env labeled_issue (event_action labeled_payload) demo_world
       = (Inr True, labeled_world)
   \<and> raises log_down_env labeled_world (Search_similar_issues labeled_issue 10) = None
   \<and> (Log_similar_issues [] labeled_issue, Some connection_lost)
       \<in> set (new_calls labeled_world
               (snd (github_webhook_issues log_down_env labeled_payload demo_world)))
   \<and> fst (github_webhook_issues log_down_env labeled_payload demo_world) = success_response"
proof -
  have m: "from_webhook_payload log_down_env labeled_payload = Inr labeled_issue"
    unfolding log_down_env_def by (rule sample_mapped)
  have n: "label_names log_down_env labeled_issue = Inr [''needs-reply'']"
    "assignee_logins log_down_env labeled_issue = Inr []"
    unfolding log_down_env_def by (rule sample_names)+
  have r: "save_issue_to_database log_down_env labeled_issue (event_action labeled_payload)
      demo_world = (Inr True, labeled_world)"
    unfolding log_down_env_def labeled_action
    by (rule sample_run) (auto split: call.splits)
  have s: "raises log_down_env labeled_world (Search_similar_issues labeled_issue 10) = None"
    by (simp add: log_down_env_def)
  have t: "new_calls labeled_world
      (snd (github_webhook_issues log_down_env labeled_payload demo_world)) =
        [(Search_similar_issues labeled_issue 10, None),
         (Log_similar_issues [] labeled_issue, Some connection_lost),
         (Should_send_comment ''labeled'' labeled_issue [], None),
         (Send_issue_comment labeled_issue [], None)]"
    by (simp add: log_down_handler new_calls_def)
  have "fst (github_webhook_issues log_down_env labeled_payload demo_world) = success_response"
    using comment_failure_is_error [OF m n(1) n(2) r s] unfolding t by auto
  then show ?thesis using m r s t by simp
qed

text \<open>
  C1 as stated fails: the comment sender raises after a successful persistence with the
  decision True, and the handler answers with the error response.
\<close>

theorem comment_failure_counterexample:
  "save_issue_to_database notifier_down_env labeled_issue ''labeled'' demo_world
     = (Inr True, labeled_world)
   \<and> github_webhook_issues notifier_down_env labeled_payload demo_world =
       ((\<lparr>status = ''error'', message = ''comment api down''\<rparr>, INTERNAL_SERVER_ERROR),
        labeled_world\<lparr>trace := trace labeled_world @
          [(Search_similar_issues labeled_issue 10, None),
           (Log_similar_issues [] labeled_issue, None),
           (Should_send_comment ''labeled'' labeled_issue [], None),
           (Send_issue_comment labeled_issue [], Some comment_api_down)]\<rparr>)"
proof -
  have t: "\<And>w c. is_table_call c \<Longrightarrow>
      (case c of Send_issue_comment i s \<Rightarrow> Some comment_api_down | _ \<Rightarrow> None) = None"
    by (auto split: call.splits)
  have r: "save_issue_to_database notifier_down_env labeled_issue ''labeled'' demo_world
     = (Inr True, labeled_world)"
    unfolding notifier_down_env_def by (rule sample_run) (rule t)
  have "github_webhook_issues notifier_down_env labeled_payload demo_world =
      comment_step notifier_down_env ''labeled'' labeled_issue (Some [])
        (labeled_world\<lparr>trace := trace labeled_world @
        [(Search_similar_issues labeled_issue 10, None),
         (Log_similar_issues [] labeled_issue, None)]\<rparr>)"
    unfolding notifier_down_env_def
    by (rule sample_handler)
      (auto simp: notifier_down_search [unfolded notifier_down_env_def] split: call.splits)
  then have "github_webhook_issues notifier_down_env labeled_payload demo_world =
       (error_response comment_api_down,
        labeled_world\<lparr>trace := trace labeled_world @
          [(Search_similar_issues labeled_issue 10, None),
           (Log_similar_issues [] labeled_issue, None),
           (Should_send_comment ''labeled'' labeled_issue [], None),
           (Send_issue_comment labeled_issue [], Some comment_api_down)]\<rparr>)"
    by (simp add: comment_step_def invoke_def notifier_down_env_def demo_env_def)
  then show ?thesis using r by (simp add: error_response_def comment_api_down_def)
qed

text \<open>
  A failing search is swallowed by the inner handler, as its comment says, but it leaves
  \<^verbatim>\<open>similar_issues\<close> unbound: the next line reads it, and the outer handler answers with an
  error response for the UnboundLocalError.
\<close>

theorem search_failure_unbound_local:
  "github_webhook_issues search_down_env labeled_payload demo_world =
     (error_response unbound_similar_issues,
      labeled_world\<lparr>trace := trace labeled_world @
        [(Search_similar_issues labeled_issue 10, Some connection_lost)]\<rparr>)"
proof -
  have "github_webhook_issues search_down_env labeled_payload demo_world =
      comment_step search_down_env ''labeled'' labeled_issue None
        (labeled_world\<lparr>trace := trace labeled_world @
        [(Search_similar_issues labeled_issue 10, Some connection_lost)]\<rparr>)"
    unfolding search_down_env_def
    by (rule sample_handler)
      (auto simp: search_down_search [unfolded search_down_env_def] split: call.splits)
  then show ?thesis by (simp add: comment_step_def)
qed

section \<open>The diff engine and partial updates\<close>

lemma all_fields_complete: "f \<in> set all_fields"
  by (cases f) (simp_all add: all_fields_def)

lemma getattr_setattr:
  "getattr (setattr g (getattr n g) r) f = (if f = g then getattr n g else getattr r f)"
  by (cases g; cases f; simp)

lemma getattr_fold:
  "getattr (fold (\<lambda>(f, v). setattr f v) (map (\<lambda>f. (f, getattr n f)) fs) r) f
     = (if f \<in> set fs then getattr n f else getattr r f)"
proof (induction fs arbitrary: r rule: rev_induct)
  case Nil
  then show ?case by simp
next
  case (snoc g fs)
  then show ?case by (simp add: getattr_setattr)
qed

lemma diff_keys:
  "fst ` set (diff_and_get_changed_fields E ex new)
     = {f. f \<notin> set (PROTECTED_FIELDS E) \<and> getattr ex f \<noteq> getattr new f}"
  by (auto simp: diff_and_get_changed_fields_def all_fields_complete image_iff)

lemma diff_empty_iff:
  "(diff_and_get_changed_fields E ex new = [])
     = (\<forall>f. f \<notin> set (PROTECTED_FIELDS E) \<longrightarrow> getattr ex f = getattr new f)"
  by (auto simp: diff_and_get_changed_fields_def filter_empty_conv all_fields_complete)

lemma getattr_apply_diff:
  "getattr (apply_fields (diff_and_get_changed_fields E ex new) r) f
     = (if f \<notin> set (PROTECTED_FIELDS E) \<and> getattr ex f \<noteq> getattr new f
        then getattr new f else getattr r f)"
  by (simp add: apply_fields_def diff_and_get_changed_fields_def getattr_fold
      all_fields_complete)

lemma diff_after_apply:
  "diff_and_get_changed_fields E (apply_fields (diff_and_get_changed_fields E ex new) ex) new = []"
  by (simp add: diff_empty_iff getattr_apply_diff)

lemma apply_diff_keeps_protected:
  "f \<in> set (PROTECTED_FIELDS E) \<Longrightarrow>
     getattr (apply_fields (diff_and_get_changed_fields E ex new) r) f = getattr r f"
  by (simp add: getattr_apply_diff)

lemma apply_diff_keeps_id:
  assumes "github_issue_id ex = github_issue_id new"
  shows "github_issue_id (apply_fields (diff_and_get_changed_fields E ex new) r)
     = github_issue_id r"
  using assms getattr_apply_diff [of E ex new r F_github_issue_id] by simp

lemma apply_diff_labels:
  assumes "F_labels \<notin> set (PROTECTED_FIELDS E)"
  shows "labels (apply_fields (diff_and_get_changed_fields E ex new) ex) = labels new"
  using assms getattr_apply_diff [of E ex new ex F_labels] by (simp split: if_splits)

lemma table_get_id: "table_get rs k = Some r \<Longrightarrow> github_issue_id r = k"
  by (auto simp: table_get_def dest: find_Some_iff [THEN iffD1])

lemma find_map_same:
  assumes "\<And>r. P (g r) = P r"
  shows "find P (map g rs) = map_option g (find P rs)"
  using assms by (induction rs) simp_all

section \<open>The update path\<close>

lemma save_found_returned:
  assumes "action \<noteq> ''opened''"
    and "table_get (rows w0) (github_issue_id issue) = Some ex"
    and "save_issue_to_database E issue action w0 = (Inr b, w1)"
  shows "new_calls w0 w1 =
           [(Open_table (ISSUE_TABLE_NAME E), None), (Table_get (github_issue_id issue), None)]
           @ (if diff_and_get_changed_fields E ex issue = [] then []
              else [(update_call E ex issue, None)])
       \<and> rows w1 =
           (if diff_and_get_changed_fields E ex issue = [] then rows w0
            else effect (update_call E ex issue) (rows w0))"
proof (cases "diff_and_get_changed_fields E ex issue = []")
  case True
  then show ?thesis using assms
    by (auto simp: save_issue_to_database_def invoke_def Let_def new_calls_def
        split: option.splits)
next
  case False
  then show ?thesis using assms
    by (auto simp: save_issue_to_database_def invoke_def Let_def new_calls_def update_call_def
        key_of_def split: option.splits)
qed

lemma save_found_any:
  assumes "action \<noteq> ''opened''"
    and "table_get (rows w0) (github_issue_id issue) = Some ex"
    and "save_issue_to_database E issue action w0 = (r, w1)"
  shows "(rows w1 = rows w0 \<or>
            (diff_and_get_changed_fields E ex issue \<noteq> []
             \<and> rows w1 = effect (update_call E ex issue) (rows w0)))
       \<and> (\<forall>c x. (c, x) \<in> set (new_calls w0 w1) \<and> is_write_call c \<longrightarrow>
             c = update_call E ex issue \<and> diff_and_get_changed_fields E ex issue \<noteq> [])"
proof (cases "diff_and_get_changed_fields E ex issue = []")
  case True
  then show ?thesis using assms
    by (auto simp: save_issue_to_database_def invoke_def Let_def new_calls_def
        split: option.splits)
next
  case False
  then show ?thesis using assms
    by (auto simp: save_issue_to_database_def invoke_def Let_def new_calls_def update_call_def
        key_of_def split: option.splits)
qed

lemma save_found_issued:
  assumes "action \<noteq> ''opened''"
    and "table_get (rows w0) (github_issue_id issue) = Some ex"
    and "save_issue_to_database E issue action w0 = (r, w1)"
    and "(Table_get (github_issue_id issue), None) \<in> set (new_calls w0 w1)"
    and "diff_and_get_changed_fields E ex issue \<noteq> []"
  shows "\<exists>x. (update_call E ex issue, x) \<in> set (new_calls w0 w1)"
  using assms
  by (auto simp: save_issue_to_database_def invoke_def Let_def new_calls_def update_call_def
      key_of_def split: option.splits)

lemma save_found_fault_free:
  assumes "action \<noteq> ''opened''"
    and "table_get (rows w0) (github_issue_id issue) = Some ex"
    and "fault_free E"
  shows "save_issue_to_database E issue action w0 =
     (Inr (has_label E (REPLY_LABEL E) issue \<and> \<not> has_label E (REPLY_LABEL E) ex),
      if diff_and_get_changed_fields E ex issue = [] then
        w0\<lparr>trace := trace w0 @
          [(Open_table (ISSUE_TABLE_NAME E), None), (Table_get (github_issue_id issue), None)]\<rparr>
      else
        w0\<lparr>rows := effect (update_call E ex issue) (rows w0),
           trace := trace w0 @
          [(Open_table (ISSUE_TABLE_NAME E), None), (Table_get (github_issue_id issue), None),
           (update_call E ex issue, None)]\<rparr>)"
  using assms
  by (simp add: save_issue_to_database_def invoke_fault_free Let_def any_reply_label_truthy
      update_call_def key_of_def)

lemma selected_key: "selected (key_of issue) r = (github_issue_id r = github_issue_id issue)"
  by (simp add: selected_def key_of_def)

lemma lookup_after_update:
  assumes "table_get rs (github_issue_id issue) = Some ex"
  shows "table_get (effect (update_call E ex issue) rs) (github_issue_id issue)
     = Some (apply_fields (diff_and_get_changed_fields E ex issue) ex)"
proof -
  let ?d = "diff_and_get_changed_fields E ex issue"
  let ?g = "\<lambda>r. if selected (key_of issue) r then apply_fields ?d r else r"
  have i: "github_issue_id ex = github_issue_id issue"
    using assms by (rule table_get_id)
  have p: "\<And>r. (github_issue_id (?g r) = github_issue_id issue)
             = (github_issue_id r = github_issue_id issue)"
    using apply_diff_keeps_id [OF i] by simp
  have "table_get (map ?g rs) (github_issue_id issue) = map_option ?g (Some ex)"
    unfolding table_get_def using find_map_same [of "\<lambda>r. github_issue_id r = github_issue_id issue" ?g rs] p
      assms [unfolded table_get_def] by simp
  then show ?thesis using i by (simp add: update_call_def selected_key)
qed

lemma stored_after_first:
  assumes "table_get (rows w0) (github_issue_id issue) = Some ex"
  shows "\<exists>ex'. table_get
            (if diff_and_get_changed_fields E ex issue = [] then rows w0
             else effect (update_call E ex issue) (rows w0)) (github_issue_id issue) = Some ex'
        \<and> diff_and_get_changed_fields E ex' issue = []
        \<and> (F_labels \<notin> set (PROTECTED_FIELDS E) \<longrightarrow> labels ex' = labels issue)"
proof (cases "diff_and_get_changed_fields E ex issue = []")
  case True
  then have "F_labels \<notin> set (PROTECTED_FIELDS E) \<longrightarrow> getattr ex F_labels = getattr issue F_labels"
    unfolding diff_empty_iff by blast
  then show ?thesis using True assms by simp
next
  case False
  then show ?thesis
    using lookup_after_update [OF assms, of E] diff_after_apply [of E ex issue]
      apply_diff_labels [of E ex issue] by simp
qed

lemma redelivery:
  assumes "action \<noteq> ''opened''"
    and "table_get (rows w0) (github_issue_id issue) = Some ex"
    and "fault_free E"
  shows "\<exists>b w1 b2. save_issue_to_database E issue action w0 = (Inr b, w1)
       \<and> save_issue_to_database E issue action w1 =
           (Inr b2, w1\<lparr>trace := trace w1 @
              [(Open_table (ISSUE_TABLE_NAME E), None),
               (Table_get (github_issue_id issue), None)]\<rparr>)
       \<and> (F_labels \<notin> set (PROTECTED_FIELDS E) \<longrightarrow> b2 = False)"
proof -
  let ?d = "diff_and_get_changed_fields E ex issue"
  let ?b = "has_label E (REPLY_LABEL E) issue \<and> \<not> has_label E (REPLY_LABEL E) ex"
  obtain w1 where
    s1: "save_issue_to_database E issue action w0 = (Inr ?b, w1)" and
    r1: "rows w1 = (if ?d = [] then rows w0 else effect (update_call E ex issue) (rows w0))"
    using save_found_fault_free [OF assms] by (cases "?d = []") simp_all
  from stored_after_first [OF assms(2), of E] obtain ex' where
    g: "table_get (rows w1) (github_issue_id issue) = Some ex'" and
    d: "diff_and_get_changed_fields E ex' issue = []" and
    l: "F_labels \<notin> set (PROTECTED_FIELDS E) \<longrightarrow> labels ex' = labels issue"
    unfolding r1 by blast
  let ?b2 = "has_label E (REPLY_LABEL E) issue \<and> \<not> has_label E (REPLY_LABEL E) ex'"
  have s2: "save_issue_to_database E issue action w1 =
           (Inr ?b2, w1\<lparr>trace := trace w1 @
              [(Open_table (ISSUE_TABLE_NAME E), None),
               (Table_get (github_issue_id issue), None)]\<rparr>)"
    using save_found_fault_free [OF assms(1) g assms(3)] d by simp
  have "F_labels \<notin> set (PROTECTED_FIELDS E) \<longrightarrow> ?b2 = False"
  proof
    assume "F_labels \<notin> set (PROTECTED_FIELDS E)"
    then have "labels ex' = labels issue" using l by simp
    then have "has_label E (REPLY_LABEL E) ex' = has_label E (REPLY_LABEL E) issue"
      by (rule has_label_cong) simp
    then show "?b2 = False" by simp
  qed
  then show ?thesis using s1 s2 by blast
qed

text \<open>
  C4. On a non-creation event whose issue id is found in the table, a run that returns
  has issued the update of the changed fields, keyed on the issue id, exactly when the
  diff of the stored record and the incoming issue is not empty, and no other write. No
  run, returning or not, issues a write when the diff is empty, and every run whose
  lookup returned issues the update when the diff is not empty. Delivering the same
  event a second time (no table call raising) makes the lookup and nothing else: no
  write, the same rows, and, the labels field not being protected, the decision False.
\<close>

theorem write_iff_diff_nonempty:
  assumes "action \<noteq> ''opened''"
    and "table_get (rows w0) (github_issue_id issue) = Some ex"
  shows "(\<forall>b w1. save_issue_to_database E issue action w0 = (Inr b, w1) \<longrightarrow>
            new_calls w0 w1 =
              [(Open_table (ISSUE_TABLE_NAME E), None),
               (Table_get (github_issue_id issue), None)]
              @ (if diff_and_get_changed_fields E ex issue = [] then []
                 else [(update_call E ex issue, None)])
          \<and> rows w1 =
              (if diff_and_get_changed_fields E ex issue = [] then rows w0
               else effect (update_call E ex issue) (rows w0)))
       \<and> (\<forall>r w1 c x. save_issue_to_database E issue action w0 = (r, w1)
              \<and> (c, x) \<in> set (new_calls w0 w1) \<and> is_write_call c \<longrightarrow>
            c = update_call E ex issue \<and> diff_and_get_changed_fields E ex issue \<noteq> [])
       \<and> (\<forall>r w1. save_issue_to_database E issue action w0 = (r, w1)
              \<and> (Table_get (github_issue_id issue), None) \<in> set (new_calls w0 w1)
              \<and> diff_and_get_changed_fields E ex issue \<noteq> [] \<longrightarrow>
            (\<exists>x. (update_call E ex issue, x) \<in> set (new_calls w0 w1)))
       \<and> (fault_free E \<longrightarrow>
            (\<exists>b w1 b2. save_issue_to_database E issue action w0 = (Inr b, w1)
               \<and> save_issue_to_database E issue action w1 =
                   (Inr b2, w1\<lparr>trace := trace w1 @
                      [(Open_table (ISSUE_TABLE_NAME E), None),
                       (Table_get (github_issue_id issue), None)]\<rparr>)
               \<and> (F_labels \<notin> set (PROTECTED_FIELDS E) \<longrightarrow> b2 = False)))"
proof (intro conjI)
  show "\<forall>b w1. save_issue_to_database E issue action w0 = (Inr b, w1) \<longrightarrow>
            new_calls w0 w1 =
              [(Open_table (ISSUE_TABLE_NAME E), None),
               (Table_get (github_issue_id issue), None)]
              @ (if diff_and_get_changed_fields E ex issue = [] then []
                 else [(update_call E ex issue, None)])
          \<and> rows w1 =
              (if diff_and_get_changed_fields E ex issue = [] then rows w0
               else effect (update_call E ex issue) (rows w0))"
    using save_found_returned [OF assms] by blast
  show "\<forall>r w1 c x. save_issue_to_database E issue action w0 = (r, w1)
              \<and> (c, x) \<in> set (new_calls w0 w1) \<and> is_write_call c \<longrightarrow>
            c = update_call E ex issue \<and> diff_and_get_changed_fields E ex issue \<noteq> []"
    using save_found_any [OF assms] by blast
  show "\<forall>r w1. save_issue_to_database E issue action w0 = (r, w1)
              \<and> (Table_get (github_issue_id issue), None) \<in> set (new_calls w0 w1)
              \<and> diff_and_get_changed_fields E ex issue \<noteq> [] \<longrightarrow>
            (\<exists>x. (update_call E ex issue, x) \<in> set (new_calls w0 w1))"
    using save_found_issued [OF assms] by blast
  show "fault_free E \<longrightarrow>
            (\<exists>b w1 b2. save_issue_to_database E issue action w0 = (Inr b, w1)
               \<and> save_issue_to_database E issue action w1 =
                   (Inr b2, w1\<lparr>trace := trace w1 @
                      [(Open_table (ISSUE_TABLE_NAME E), None),
                       (Table_get (github_issue_id issue), None)]\<rparr>)
               \<and> (F_labels \<notin> set (PROTECTED_FIELDS E) \<longrightarrow> b2 = False))"
    using redelivery [OF assms] by blast
qed

lemma demo_run:
  "save_issue_to_database demo_env labeled_issue ''labeled'' demo_world
     = (Inr True, labeled_world)"
proof -
  have "demo_env = demo_env\<lparr>raises := (\<lambda>w c. None)\<rparr>" by (simp add: demo_env_def)
  then show ?thesis using sample_run [of "\<lambda>w c. None"] by simp
qed

theorem write_iff_diff_nonempty_witness:
  "table_get (rows demo_world) (github_issue_id labeled_issue) = Some demo_issue
   \<and> fault_free demo_env
   \<and> F_labels \<notin> set (PROTECTED_FIELDS demo_env)
   \<and> diff_and_get_changed_fields demo_env demo_issue labeled_issue
       = [(F_labels, POptStr (Some ''needs-reply''))]
   \<and> save_issue_to_database demo_env labeled_issue ''labeled'' demo_world
       = (Inr True, labeled_world)
   \<and> new_calls demo_world labeled_world =
       [(Open_table ''issues'', None), (Table_get 42, None),
        (Table_update [(F_labels, POptStr (Some ''needs-reply''))]
           [(F_github_issue_id, PInt 42)], None)]
   \<and> save_issue_to_database demo_env labeled_issue ''labeled'' labeled_world
       = (Inr False,
          labeled_world\<lparr>trace := trace labeled_world @
            [(Open_table ''issues'', None), (Table_get 42, None)]\<rparr>)"
proof -
  have g: "table_get (rows demo_world) (github_issue_id labeled_issue) = Some demo_issue"
    using demo_found ids_42 by simp
  have p: "F_labels \<notin> set (PROTECTED_FIELDS demo_env)"
    by (simp add: demo_env_def)
  have n: "ISSUE_TABLE_NAME demo_env = ''issues''" by (simp add: demo_env_def)
  from write_iff_diff_nonempty [of "''labeled''" demo_world labeled_issue demo_issue demo_env] g
  have "\<exists>b w1 b2. save_issue_to_database demo_env labeled_issue ''labeled'' demo_world
            = (Inr b, w1)
        \<and> save_issue_to_database demo_env labeled_issue ''labeled'' w1 =
            (Inr b2, w1\<lparr>trace := trace w1 @
               [(Open_table (ISSUE_TABLE_NAME demo_env), None),
                (Table_get (github_issue_id labeled_issue), None)]\<rparr>)
        \<and> (F_labels \<notin> set (PROTECTED_FIELDS demo_env) \<longrightarrow> b2 = False)"
    using demo_fault_free by simp
  then have s2: "save_issue_to_database demo_env labeled_issue ''labeled'' labeled_world
       = (Inr False,
          labeled_world\<lparr>trace := trace labeled_world @
            [(Open_table ''issues'', None), (Table_get 42, None)]\<rparr>)"
    using demo_run p n ids_42 by auto
  have c: "new_calls demo_world labeled_world =
       [(Open_table ''issues'', None), (Table_get 42, None),
        (Table_update [(F_labels, POptStr (Some ''needs-reply''))]
           [(F_github_issue_id, PInt 42)], None)]"
    by (simp add: new_calls_def demo_world_def labeled_world_def)
  show ?thesis using g demo_fault_free p demo_diff_labeled demo_run c s2 by simp
qed

section \<open>A creation event for an id the table already holds\<close>

text \<open>
  C8, as the code has it. On an \<^verbatim>\<open>opened\<close> event, whether or not the table holds a record
  with the issue's id, \<^verbatim>\<open>save_issue_to_database\<close> makes no lookup and no update: after
  opening the table its only call is one insert of the incoming issue. When that insert
  returns, the routine returns the decision (the reply label is among the incoming
  labels); when the insert raises, the routine raises the same exception.
\<close>

theorem opened_inserts_unconditionally:
  "(\<exists>e. new_calls w0 (snd (save_issue_to_database E issue ''opened'' w0))
            = [(Open_table (ISSUE_TABLE_NAME E), Some e)]
        \<and> fst (save_issue_to_database E issue ''opened'' w0) = Inl e)
   \<or> (\<exists>x. new_calls w0 (snd (save_issue_to_database E issue ''opened'' w0))
            = [(Open_table (ISSUE_TABLE_NAME E), None), (Table_insert issue, x)]
        \<and> fst (save_issue_to_database E issue ''opened'' w0) =
            (case x of None \<Rightarrow> Inr (has_label E (REPLY_LABEL E) issue) | Some e \<Rightarrow> Inl e))"
proof (cases "raises E w0 (Open_table (ISSUE_TABLE_NAME E))")
  case (Some e)
  then show ?thesis
    by (simp add: save_issue_to_database_def invoke_def new_calls_def)
next
  case None
  show ?thesis
  proof (cases "raises E (w0\<lparr>trace := trace w0 @ [(Open_table (ISSUE_TABLE_NAME E), None)]\<rparr>)
      (Table_insert issue)")
    case None': None
    show ?thesis using None None'
      by (simp add: save_issue_to_database_def invoke_def new_calls_def any_reply_label_list)
  next
    case (Some e)
    show ?thesis using None Some
      by (simp add: save_issue_to_database_def invoke_def new_calls_def)
  qed
qed

lemma demo_opened_run:
  "save_issue_to_database demo_env labeled_issue ''opened'' demo_world =
     (Inr True,
      \<lparr>rows = [demo_issue, labeled_issue],
       trace = [(Open_table ''issues'', None), (Table_insert labeled_issue, None)]\<rparr>)"
  by (simp add: save_issue_to_database_def invoke_def Let_def demo_env_def demo_world_def
      any_reply_label_def get_labels_list_def dict_get_def labeled_issue_def)

theorem opened_inserts_unconditionally_witness:
  "table_get (rows demo_world) (github_issue_id labeled_issue) = Some demo_issue
   \<and> new_calls demo_world (snd (save_issue_to_database demo_env labeled_issue ''opened'' demo_world))
       = [(Open_table ''issues'', None), (Table_insert labeled_issue, None)]
   \<and> fst (save_issue_to_database demo_env labeled_issue ''opened'' demo_world) = Inr True"
proof -
  have g: "table_get (rows demo_world) (github_issue_id labeled_issue) = Some demo_issue"
    using demo_found ids_42 by simp
  have n: "new_calls demo_world
      (snd (save_issue_to_database demo_env labeled_issue ''opened'' demo_world))
       = [(Open_table ''issues'', None), (Table_insert labeled_issue, None)]"
    unfolding demo_opened_run by (simp add: new_calls_def demo_world_def)
  have "fst (save_issue_to_database demo_env labeled_issue ''opened'' demo_world) = Inr True"
    using opened_inserts_unconditionally [of demo_world demo_env labeled_issue]
      demo_labeled_has unfolding n by auto
  then show ?thesis using g n by simp
qed

text \<open>
  C8 as stated fails: with a table that rejects a duplicate key, the \<^verbatim>\<open>opened\<close> event for
  an id the table holds makes \<^verbatim>\<open>save_issue_to_database\<close> raise, after an insert and
  without any lookup or update.
\<close>

theorem duplicate_opened_counterexample:
  "table_get (rows demo_world) (github_issue_id labeled_issue) = Some demo_issue
   \<and> save_issue_to_database unique_env labeled_issue ''opened'' demo_world =
       (Inl duplicate_entry,
        \<lparr>rows = [demo_issue],
         trace = [(Open_table ''issues'', None),
                  (Table_insert labeled_issue, Some duplicate_entry)]\<rparr>)"
proof -
  have g: "table_get (rows demo_world) (github_issue_id labeled_issue) = Some demo_issue"
    using demo_found ids_42 by simp
  have t: "table_get [demo_issue] (github_issue_id labeled_issue) = Some demo_issue"
    using g by (simp add: demo_world_def)
  have "save_issue_to_database unique_env labeled_issue ''opened'' demo_world =
       (Inl duplicate_entry,
        \<lparr>rows = [demo_issue],
         trace = [(Open_table ''issues'', None),
                  (Table_insert labeled_issue, Some duplicate_entry)]\<rparr>)"
    by (simp add: save_issue_to_database_def invoke_def Let_def unique_env_def demo_env_def
        demo_world_def t)
  then show ?thesis using g by simp
qed

section \<open>Protected fields\<close>

lemma update_keeps_protected:
  assumes "f \<in> set (PROTECTED_FIELDS E)" and "k < length rs"
  shows "getattr (effect (update_call E ex issue) rs ! k) f = getattr (rs ! k) f"
  using assms by (simp add: update_call_def apply_diff_keeps_protected)

lemma no_write_calls:
  assumes "\<forall>c x. (c, x) \<in> set xs \<and> is_write_call c \<longrightarrow> c = u \<and> d \<noteq> []" and "d = []"
  shows "filter (\<lambda>(c, x). is_write_call c) xs = []"
  using assms by (auto simp: filter_empty_conv)

text \<open>
  C7. The diff never holds a protected field, and it is empty for two records that agree
  on every field that is not protected. On the update path no protected field of any
  stored row changes, whatever the incoming issue carries for it; and when the stored
  record and the incoming issue differ in protected fields only, the run issues no write
  and leaves the rows as they were.
\<close>

theorem protected_fields_frame:
  "(f \<in> set (PROTECTED_FIELDS E) \<longrightarrow> f \<notin> fst ` set (diff_and_get_changed_fields E ex new))
   \<and> ((\<forall>g. g \<notin> set (PROTECTED_FIELDS E) \<longrightarrow> getattr ex g = getattr new g) \<longrightarrow>
        diff_and_get_changed_fields E ex new = [])
   \<and> (action \<noteq> ''opened'' \<and> table_get (rows w0) (github_issue_id issue) = Some ex
        \<and> save_issue_to_database E issue action w0 = (r, w1) \<longrightarrow>
        length (rows w1) = length (rows w0)
        \<and> (\<forall>k g. k < length (rows w0) \<and> g \<in> set (PROTECTED_FIELDS E) \<longrightarrow>
               getattr (rows w1 ! k) g = getattr (rows w0 ! k) g)
        \<and> ((\<forall>g. g \<notin> set (PROTECTED_FIELDS E) \<longrightarrow> getattr ex g = getattr issue g) \<longrightarrow>
               rows w1 = rows w0
               \<and> filter (\<lambda>(c, x). is_write_call c) (new_calls w0 w1) = []))"
proof (intro conjI impI)
  assume "f \<in> set (PROTECTED_FIELDS E)"
  then show "f \<notin> fst ` set (diff_and_get_changed_fields E ex new)"
    by (simp add: diff_keys)
next
  assume "\<forall>g. g \<notin> set (PROTECTED_FIELDS E) \<longrightarrow> getattr ex g = getattr new g"
  then show "diff_and_get_changed_fields E ex new = []"
    by (simp add: diff_empty_iff)
next
  assume h: "action \<noteq> ''opened'' \<and> table_get (rows w0) (github_issue_id issue) = Some ex
        \<and> save_issue_to_database E issue action w0 = (r, w1)"
  then have a: "rows w1 = rows w0 \<or>
            (diff_and_get_changed_fields E ex issue \<noteq> []
             \<and> rows w1 = effect (update_call E ex issue) (rows w0))"
    using save_found_any [of action w0 issue ex E r w1] by blast
  then show "length (rows w1) = length (rows w0)"
    by (auto simp: update_call_def)
  show "\<forall>k g. k < length (rows w0) \<and> g \<in> set (PROTECTED_FIELDS E) \<longrightarrow>
               getattr (rows w1 ! k) g = getattr (rows w0 ! k) g"
    using a update_keeps_protected [of _ E _ "rows w0" ex issue] by auto
next
  assume h: "action \<noteq> ''opened'' \<and> table_get (rows w0) (github_issue_id issue) = Some ex
        \<and> save_issue_to_database E issue action w0 = (r, w1)"
    and e: "\<forall>g. g \<notin> set (PROTECTED_FIELDS E) \<longrightarrow> getattr ex g = getattr issue g"
  have d: "diff_and_get_changed_fields E ex issue = []"
    using e by (simp add: diff_empty_iff)
  show "rows w1 = rows w0"
    using save_found_any [of action w0 issue ex E r w1] h d by blast
next
  assume h: "action \<noteq> ''opened'' \<and> table_get (rows w0) (github_issue_id issue) = Some ex
        \<and> save_issue_to_database E issue action w0 = (r, w1)"
    and e: "\<forall>g. g \<notin> set (PROTECTED_FIELDS E) \<longrightarrow> getattr ex g = getattr issue g"
  have d: "diff_and_get_changed_fields E ex issue = []"
    using e by (simp add: diff_empty_iff)
  have "\<forall>c x. (c, x) \<in> set (new_calls w0 w1) \<and> is_write_call c \<longrightarrow>
             c = update_call E ex issue \<and> diff_and_get_changed_fields E ex issue \<noteq> []"
    using save_found_any [of action w0 issue ex E r w1] h by blast
  then show "filter (\<lambda>(c, x). is_write_call c) (new_calls w0 w1) = []"
    using d by (rule no_write_calls)
qed

lemma title_run:
  "save_issue_to_database title_env retitled_issue ''edited'' demo_world =
     (Inr True,
      \<lparr>rows = [demo_issue\<lparr>state := ''closed'', labels := Some ''needs-reply''\<rparr>],
       trace = [(Open_table ''issues'', None), (Table_get 42, None),
                (Table_update [(F_state, PStr ''closed''),
                               (F_labels, POptStr (Some ''needs-reply''))]
                   [(F_github_issue_id, PInt 42)], None)]\<rparr>)"
  by (simp add: save_issue_to_database_def invoke_def Let_def title_env_def demo_env_def
      demo_world_def retitled_issue_def labeled_issue_def demo_issue_def table_get_def
      diff_and_get_changed_fields_def all_fields_def any_reply_label_def get_labels_list_def
      dict_get_def apply_fields_def selected_def)

theorem protected_fields_frame_witness:
  "F_title \<in> set (PROTECTED_FIELDS title_env)
   \<and> title retitled_issue \<noteq> title demo_issue
   \<and> F_title \<notin> fst ` set (diff_and_get_changed_fields title_env demo_issue retitled_issue)
   \<and> rows (snd (save_issue_to_database title_env retitled_issue ''edited'' demo_world))
       = [demo_issue\<lparr>state := ''closed'', labels := Some ''needs-reply''\<rparr>]
   \<and> diff_and_get_changed_fields strict_env demo_issue retitled_issue = []
   \<and> rows (snd (save_issue_to_database strict_env retitled_issue ''edited'' demo_world))
       = rows demo_world"
proof -
  have p: "F_title \<in> set (PROTECTED_FIELDS title_env)"
    by (simp add: title_env_def)
  have t: "title retitled_issue \<noteq> title demo_issue"
    by (simp add: retitled_issue_def labeled_issue_def demo_issue_def)
  have k: "F_title \<notin> fst ` set (diff_and_get_changed_fields title_env demo_issue retitled_issue)"
    using protected_fields_frame [where f = F_title and E = title_env and ex = demo_issue
        and new = retitled_issue] p by blast
  have g: "table_get (rows demo_world) (github_issue_id retitled_issue) = Some demo_issue"
    using demo_found ids_42 by simp
  have e: "\<forall>g. g \<notin> set (PROTECTED_FIELDS strict_env) \<longrightarrow>
      getattr demo_issue g = getattr retitled_issue g"
    using strict_diff_retitled unfolding diff_empty_iff .
  have s: "save_issue_to_database strict_env retitled_issue ''edited'' demo_world =
      (fst (save_issue_to_database strict_env retitled_issue ''edited'' demo_world),
       snd (save_issue_to_database strict_env retitled_issue ''edited'' demo_world))"
    by simp
  have u: "rows (snd (save_issue_to_database strict_env retitled_issue ''edited'' demo_world))
       = rows demo_world"
    using protected_fields_frame [where E = strict_env and ex = demo_issue
        and issue = retitled_issue and action = "''edited''" and ?w0.0 = demo_world
        and r = "fst (save_issue_to_database strict_env retitled_issue ''edited'' demo_world)"
        and ?w1.0 = "snd (save_issue_to_database strict_env retitled_issue ''edited'' demo_world)"]
      g e s by simp
  show ?thesis using p t k u strict_diff_retitled by (simp add: title_run)
qed

end
